theory Spec2Isabelle
  imports Main
begin

section \<open>Configuration\<close>

text \<open>
  The interfaces of \<^verbatim>\<open>src/index.ts\<close>. A field declared with \<^verbatim>\<open>?\<close> is an option
  (\<open>None\<close> is \<^verbatim>\<open>undefined\<close>); numbers are integers of seconds. \<open>mode\<close> and \<open>logging\<close>
  stay strings, since the code compares them with literals and has a branch for every
  other value.
\<close>

record MqttSettings =
  mqttBroker :: string
  mqttPort :: "int option"
  mqttUsername :: "string option"
  mqttPassword :: "string option"
  mqttTopicSubscribe :: string
  mqttOpenMessage :: string
  mqttCloseMessage :: string
  mqttTopicPublish :: string
  mqttPublishOpenMessage :: string
  mqttPublishCloseMessage :: string

record CommandSettings =
  openCommand :: string
  closeCommand :: string
  monitorCommand :: string
  monitorInterval :: int

record LockConfig =
  name :: string
  mode :: string
  autoLock :: "bool option"
  autoLockDelay :: "int option"
  lockDelay :: "int option"
  unlockDelay :: "int option"
  logging :: "string option"
  mqttSettings :: "MqttSettings option"
  commandSettings :: "CommandSettings option"

section \<open>JavaScript values\<close>

text \<open>Truthiness of an optional string (\<^verbatim>\<open>undefined\<close> and \<^verbatim>\<open>''\<close> are falsy).\<close>

definition truthyS :: "string option \<Rightarrow> bool" where
  "truthyS v = (case v of None \<Rightarrow> False | Some s \<Rightarrow> s \<noteq> [])"

text \<open>\<^verbatim>\<open>x && x > 0\<close> on an optional number.\<close>

definition positive :: "int option \<Rightarrow> bool" where
  "positive v = (case v of None \<Rightarrow> False | Some d \<Rightarrow> d \<noteq> 0 \<and> 0 < d)"

text \<open>\<^verbatim>\<open>x || d\<close> on an optional number, an optional string and an optional boolean.\<close>

definition orElse :: "int option \<Rightarrow> int \<Rightarrow> int" where
  "orElse v d = (case v of None \<Rightarrow> d | Some x \<Rightarrow> if x = 0 then d else x)"

definition orElseS :: "string option \<Rightarrow> string \<Rightarrow> string" where
  "orElseS v d = (case v of None \<Rightarrow> d | Some x \<Rightarrow> if x = [] then d else x)"

definition orFalse :: "bool option \<Rightarrow> bool" where
  "orFalse v = (case v of None \<Rightarrow> False | Some b \<Rightarrow> b)"

text \<open>
  \<^verbatim>\<open>String.prototype.trim\<close> and \<^verbatim>\<open>toLowerCase\<close> on ASCII text: the white space of
  ECMAScript below code 128 is tab, line feed, vertical tab, form feed, carriage return
  and space.
\<close>

definition isSpace :: "char \<Rightarrow> bool" where
  "isSpace c = (of_char c \<in> {9, 10, 11, 12, 13, 32 :: nat})"

definition trim :: "string \<Rightarrow> string" where
  "trim s = rev (dropWhile isSpace (rev (dropWhile isSpace s)))"

definition lowerChar :: "char \<Rightarrow> char" where
  "lowerChar c =
     (if 65 \<le> (of_char c :: nat) \<and> (of_char c :: nat) \<le> 90
      then char_of (of_char c + (32 :: nat)) else c)"

definition toLowerCase :: "string \<Rightarrow> string" where
  "toLowerCase s = map lowerChar s"

definition upperChar :: "char \<Rightarrow> char" where
  "upperChar c =
     (if 97 \<le> (of_char c :: nat) \<and> (of_char c :: nat) \<le> 122
      then char_of (of_char c - (32 :: nat)) else c)"

definition toUpperCase :: "string \<Rightarrow> string" where
  "toUpperCase s = map upperChar s"

section \<open>The world of one accessory\<close>

text \<open>
  What the accessory does to its collaborators is recorded, in order, in \<open>actions\<close>
  (the HomeKit service, the MQTT client, the shell) and in \<open>logs\<close> (the Homebridge
  logger). A log line is its level and which message of the source it is; the
  \<^verbatim>\<open>[name]\<close> prefix is left out.
\<close>

datatype characteristic = LockCurrentState | LockTargetState

definition SECURED :: int where "SECURED = 1"
definition UNSECURED :: int where "UNSECURED = 0"

definition lockValue :: "bool \<Rightarrow> int" where
  "lockValue b = (if b then SECURED else UNSECURED)"

datatype action =
    SetName string
  | UpdateCharacteristic characteristic int
  | MqttConnect string int "string option" "string option"
  | MqttSubscribe string
  | MqttPublish string string
  | MqttEnd
  | Exec string
  | MqttConnectUrl string "string option" "string option"

datatype message =
    MqttSettingsMissing
  | MqttConnected
  | SubscribeFailed string
  | Subscribed
  | ReceivedOpen
  | ReceivedClose
  | MqttAuthFailed
  | MqttError string
  | Reconnecting
  | CommandLineSettingsMissing
  | MissingCommandSettings
  | CommandModeInitialized int
  | MonitorNotDefined
  | CommandOutput string string
  | CommandErrorOutput string string
  | CommandFailed string string
  | CommandNotDefined string
  | MonitorDetected bool
  | NoStateChange
  | DummyMode
  | SettingTargetState bool
  | CommandSettingsMissing
  | LockingAfter int
  | UnlockingAfter int
  | LockAlready bool
  | LockIsNow bool
  | PublishFailed string
  | Published string
  | AutoLockIn int
  | AutoLockEnabled
  | ShuttingDown
  | MqttClosed
  | MonitorCleared
  | AutoLockCleared
  | LockDelayCleared
  | UnlockDelayCleared

datatype level = Debug | Info | Error

text \<open>The result of \<^verbatim>\<open>execAsync\<close>: stdout and stderr, or the rejection's message.\<close>

datatype exec_result = ExecOk string string | ExecErr string

text \<open>
  The event loop's pending timers. A \<^verbatim>\<open>setTimeout\<close> or \<^verbatim>\<open>setInterval\<close> call adds one
  under a fresh identifier; the identifier is the handle the accessory stores. The
  callback is named after the closure the source passes.
\<close>

datatype callback = LockDelayCb | UnlockDelayCb | AutoLockCb | MonitorCb

record timer =
  tid :: nat
  callback :: callback
  delayMs :: int
  repeating :: bool

text \<open>The \<^verbatim>\<open>PlatformAccessory\<close> of the host, with the two persisted context fields.\<close>

record PlatformAccessory =
  displayName :: string
  UUID :: string
  context_isLocked :: "bool option"
  context_targetState :: "bool option"
  context_instance :: bool
  lockMechanism :: bool

record PowerLockAccessory =
  accessory :: PlatformAccessory
  config :: LockConfig
  isLocked :: bool
  targetState :: bool
  mqttClient :: bool
  autoLockTimeout :: "nat option"
  monitorIntervalHandle :: "nat option"
  lockDelayTimeout :: "nat option"
  unlockDelayTimeout :: "nat option"
  timers :: "timer list"
  nextTimer :: nat
  actions :: "action list"
  logs :: "(level \<times> message) list"

definition act :: "action \<Rightarrow> PowerLockAccessory \<Rightarrow> PowerLockAccessory" where
  "act a s = s\<lparr>actions := actions s @ [a]\<rparr>"

subsection \<open>Logging\<close>

definition logDebug :: "message \<Rightarrow> PowerLockAccessory \<Rightarrow> PowerLockAccessory" where
  "logDebug m s =
     (if logging (config s) = Some ''debug'' then s\<lparr>logs := logs s @ [(Debug, m)]\<rparr> else s)"

definition logInfo :: "message \<Rightarrow> PowerLockAccessory \<Rightarrow> PowerLockAccessory" where
  "logInfo m s =
     (if orElseS (logging (config s)) ''normal'' \<in> set [''debug'', ''normal'']
      then s\<lparr>logs := logs s @ [(Info, m)]\<rparr> else s)"

definition logError :: "message \<Rightarrow> PowerLockAccessory \<Rightarrow> PowerLockAccessory" where
  "logError m s =
     (if orElseS (logging (config s)) ''normal'' \<in> set [''debug'', ''normal'', ''minimal'']
      then s\<lparr>logs := logs s @ [(Error, m)]\<rparr> else s)"

subsection \<open>Timers\<close>

definition setTimer ::
  "callback \<Rightarrow> int \<Rightarrow> bool \<Rightarrow> PowerLockAccessory \<Rightarrow> nat \<times> PowerLockAccessory" where
  "setTimer cb d rep s =
     (nextTimer s,
      s\<lparr>timers := timers s @ [\<lparr>tid = nextTimer s, callback = cb, delayMs = d, repeating = rep\<rparr>],
        nextTimer := Suc (nextTimer s)\<rparr>)"

text \<open>\<^verbatim>\<open>if (h) clearTimeout(h)\<close>: nothing happens for an unset or an expired handle.\<close>

definition clearTimer :: "nat option \<Rightarrow> PowerLockAccessory \<Rightarrow> PowerLockAccessory" where
  "clearTimer h s =
     (case h of None \<Rightarrow> s
      | Some i \<Rightarrow> s\<lparr>timers := filter (\<lambda>t. tid t \<noteq> i) (timers s)\<rparr>)"

section \<open>State changes\<close>

text \<open>\<^verbatim>\<open>updateLockState\<close> (index.ts 393--463).\<close>

definition publishState :: "bool \<Rightarrow> PowerLockAccessory \<Rightarrow> PowerLockAccessory" where
  "publishState desiredState s =
     (case mqttSettings (config s) of
        None \<Rightarrow> s
      | Some ms \<Rightarrow>
          if mode (config s) = ''mqtt'' \<and> mqttClient s \<and> mqttTopicPublish ms \<noteq> []
          then act (MqttPublish (mqttTopicPublish ms)
                 (if desiredState
                  then orElseS (Some (mqttPublishCloseMessage ms)) ''closed''
                  else orElseS (Some (mqttPublishOpenMessage ms)) ''opened'')) s
          else s)"

definition armAutoLock :: "PowerLockAccessory \<Rightarrow> PowerLockAccessory" where
  "armAutoLock s =
     (let s1 = clearTimer (autoLockTimeout s) s;
          d = orElse (autoLockDelay (config s1)) 30;
          (i, s2) = setTimer AutoLockCb (d * 1000) False s1
      in logDebug (AutoLockIn d) (s2\<lparr>autoLockTimeout := Some i\<rparr>))"

definition updateLockState :: "bool \<Rightarrow> bool \<Rightarrow> PowerLockAccessory \<Rightarrow> PowerLockAccessory" where
  "updateLockState desiredState triggerAutoLock s =
     (if desiredState = isLocked s \<and> targetState s = desiredState
      then logDebug (LockAlready desiredState) s
      else
        let s1 = act (UpdateCharacteristic LockTargetState (lockValue desiredState))
                   (s\<lparr>targetState := desiredState\<rparr>);
            s2 = act (UpdateCharacteristic LockCurrentState (lockValue desiredState))
                   (s1\<lparr>isLocked := desiredState\<rparr>);
            s3 = s2\<lparr>accessory := (accessory s2)
                   \<lparr>context_isLocked := Some (isLocked s2),
                    context_targetState := Some (targetState s2)\<rparr>\<rparr>;
            s4 = logInfo (LockIsNow desiredState) s3;
            s5 = publishState desiredState s4
        in if triggerAutoLock \<and> orFalse (autoLock (config s5)) \<and> \<not> desiredState
           then armAutoLock s5 else s5)"

text \<open>\<^verbatim>\<open>executeCommand\<close> (index.ts 370--391), given what the shell returns.\<close>

definition executeCommand ::
  "string \<Rightarrow> string \<Rightarrow> exec_result \<Rightarrow> PowerLockAccessory \<Rightarrow> PowerLockAccessory" where
  "executeCommand command commandName r s =
     (if command = [] then logError (CommandNotDefined commandName) s
      else
        let s1 = act (Exec command) s
        in case r of
             ExecOk out err \<Rightarrow>
               let s2 = (if out \<noteq> [] then logDebug (CommandOutput commandName (trim out)) s1
                         else s1)
               in if err \<noteq> [] then logError (CommandErrorOutput commandName (trim err)) s2
                  else s2
           | ExecErr m \<Rightarrow> logError (CommandFailed commandName m) s1)"

text \<open>
  \<^verbatim>\<open>setTargetState\<close> (index.ts 319--368). The value is the number HomeKit writes; the
  command's result is the one the awaited \<^verbatim>\<open>executeCommand\<close> gets, and the model runs
  the continuation after the \<^verbatim>\<open>await\<close> in the same step.
\<close>

definition setTargetState :: "int \<Rightarrow> exec_result \<Rightarrow> PowerLockAccessory \<Rightarrow> PowerLockAccessory" where
  "setTargetState v r s =
     (let desiredState = (v = SECURED);
          s0 = logInfo (SettingTargetState desiredState) s
      in if mode (config s0) = ''command'' then
           (case commandSettings (config s0) of
              None \<Rightarrow> logError CommandSettingsMissing s0
            | Some cs \<Rightarrow>
                if desiredState then
                  (if positive (lockDelay (config s0)) then
                     let d = the (lockDelay (config s0));
                         (i, s1) = setTimer LockDelayCb (d * 1000) False
                                     (logDebug (LockingAfter d) s0)
                     in s1\<lparr>lockDelayTimeout := Some i\<rparr>
                   else updateLockState True (orFalse (autoLock (config s0)))
                          (executeCommand (closeCommand cs) ''closeCommand'' r s0))
                else
                  (if positive (unlockDelay (config s0)) then
                     let d = the (unlockDelay (config s0));
                         (i, s1) = setTimer UnlockDelayCb (d * 1000) False
                                     (logDebug (UnlockingAfter d) s0)
                     in s1\<lparr>unlockDelayTimeout := Some i\<rparr>
                   else updateLockState False (orFalse (autoLock (config s0)))
                          (executeCommand (openCommand cs) ''openCommand'' r s0)))
         else updateLockState desiredState (orFalse (autoLock (config s0))) s0)"

section \<open>Observing the outside\<close>

text \<open>
  \<^verbatim>\<open>executeMonitorCommand\<close> (index.ts 264--310), given what the shell returns for the
  monitor command.
\<close>

definition monitorState :: "string \<Rightarrow> bool option" where
  "monitorState output =
     (if output = ''open'' \<or> output = ''unsecured'' then Some False
      else if output = ''closed'' \<or> output = ''secured'' then Some True
      else None)"

definition executeMonitorCommand :: "exec_result \<Rightarrow> PowerLockAccessory \<Rightarrow> PowerLockAccessory" where
  "executeMonitorCommand r s =
     (case commandSettings (config s) of
        None \<Rightarrow> logError MonitorNotDefined s
      | Some cs \<Rightarrow>
          if monitorCommand cs = [] then logError MonitorNotDefined s
          else
            let s1 = act (Exec (monitorCommand cs)) s
            in case r of
                 ExecErr m \<Rightarrow> logError (CommandFailed ''monitorCommand'' m) s1
               | ExecOk out err \<Rightarrow>
                   let s2 = (if out \<noteq> []
                             then logDebug (CommandOutput ''monitorCommand'' (trim out)) s1
                             else s1);
                       s3 = (if err \<noteq> []
                             then logError (CommandErrorOutput ''monitorCommand'' (trim err)) s2
                             else s2)
                   in (case monitorState (toLowerCase (trim out)) of
                         None \<Rightarrow> logDebug NoStateChange s3
                       | Some newState \<Rightarrow>
                           if newState \<noteq> isLocked s3
                           then updateLockState newState False
                                  (logInfo (MonitorDetected newState) s3)
                           else logDebug NoStateChange s3))"

text \<open>The handlers \<^verbatim>\<open>setupMQTT\<close> registers on the client (index.ts 184--228).\<close>

definition onConnect :: "PowerLockAccessory \<Rightarrow> PowerLockAccessory" where
  "onConnect s =
     (case mqttSettings (config s) of
        None \<Rightarrow> s
      | Some m \<Rightarrow>
          let s1 = logInfo MqttConnected s
          in if mqttClient s1 then act (MqttSubscribe (mqttTopicSubscribe m)) s1 else s1)"

definition onSubscribed :: "string option \<Rightarrow> PowerLockAccessory \<Rightarrow> PowerLockAccessory" where
  "onSubscribed err s =
     (case err of Some e \<Rightarrow> logError (SubscribeFailed e) s | None \<Rightarrow> logDebug Subscribed s)"

definition onMessage :: "string \<Rightarrow> string \<Rightarrow> PowerLockAccessory \<Rightarrow> PowerLockAccessory" where
  "onMessage topic msg s =
     (case mqttSettings (config s) of
        None \<Rightarrow> s
      | Some m \<Rightarrow>
          if topic = mqttTopicSubscribe m then
            (if msg = mqttOpenMessage m
             then updateLockState False False (logDebug ReceivedOpen s)
             else if msg = mqttCloseMessage m
             then updateLockState True False (logDebug ReceivedClose s)
             else s)
          else s)"

text \<open>
  The error handler tests \<^verbatim>\<open>err.message.includes('Not authorized')\<close>; the event carries
  the outcome of that test.
\<close>

definition onError :: "bool \<Rightarrow> string \<Rightarrow> PowerLockAccessory \<Rightarrow> PowerLockAccessory" where
  "onError notAuthorized m s =
     (if notAuthorized then logError MqttAuthFailed s else logError (MqttError m) s)"

definition onReconnect :: "PowerLockAccessory \<Rightarrow> PowerLockAccessory" where
  "onReconnect s = logInfo Reconnecting s"

definition onPublished :: "string \<Rightarrow> string option \<Rightarrow> PowerLockAccessory \<Rightarrow> PowerLockAccessory" where
  "onPublished msg err s =
     (case err of Some e \<Rightarrow> logError (PublishFailed e) s | None \<Rightarrow> logDebug (Published msg) s)"

section \<open>Construction\<close>

text \<open>\<^verbatim>\<open>setupMQTT\<close> up to the \<^verbatim>\<open>connect\<close> call (index.ts 161--182).\<close>

definition credential :: "string option \<Rightarrow> string option" where
  "credential v = (if truthyS v \<and> trim (the v) \<noteq> [] then v else None)"

definition setupMQTT :: "PowerLockAccessory \<Rightarrow> PowerLockAccessory" where
  "setupMQTT s =
     (case mqttSettings (config s) of
        None \<Rightarrow> logError MqttSettingsMissing s
      | Some m \<Rightarrow>
          (act (MqttConnect (mqttBroker m) (orElse (mqttPort m) 1883)
                  (credential (mqttUsername m)) (credential (mqttPassword m))) s)
          \<lparr>mqttClient := True\<rparr>)"

text \<open>\<^verbatim>\<open>setupCommandLine\<close> (index.ts 232--262).\<close>

definition setupCommandLine :: "PowerLockAccessory \<Rightarrow> PowerLockAccessory" where
  "setupCommandLine s =
     (case commandSettings (config s) of
        None \<Rightarrow> logError CommandLineSettingsMissing s
      | Some cs \<Rightarrow>
          if openCommand cs = [] \<or> closeCommand cs = [] \<or> monitorCommand cs = []
             \<or> monitorInterval cs = 0
          then logError MissingCommandSettings s
          else
            let (i, s1) = setTimer MonitorCb (monitorInterval cs * 1000) True s
            in logInfo (CommandModeInitialized (monitorInterval cs))
                 (s1\<lparr>monitorIntervalHandle := Some i\<rparr>))"

definition setupDummy :: "PowerLockAccessory \<Rightarrow> PowerLockAccessory" where
  "setupDummy s = logInfo DummyMode s"

definition setupMode :: "PowerLockAccessory \<Rightarrow> PowerLockAccessory" where
  "setupMode s =
     (if mode (config s) = ''mqtt'' then setupMQTT s
      else if mode (config s) = ''command'' then setupCommandLine s
      else setupDummy s)"

definition setupAutoLock :: "PowerLockAccessory \<Rightarrow> PowerLockAccessory" where
  "setupAutoLock s = logInfo AutoLockEnabled s"

text \<open>
  The constructor (index.ts 87--143). The state comes from the accessory's context, or
  is secured; \<open>t0\<close> is the next free timer identifier of the event loop.
\<close>

definition construct :: "LockConfig \<Rightarrow> PlatformAccessory \<Rightarrow> nat \<Rightarrow> PowerLockAccessory" where
  "construct cfg acc t0 =
     (let s0 = \<lparr>accessory = acc\<lparr>context_instance := True, lockMechanism := True\<rparr>,
                config = cfg,
                isLocked = (case context_isLocked acc of None \<Rightarrow> True | Some b \<Rightarrow> b),
                targetState = (case context_targetState acc of None \<Rightarrow> True | Some b \<Rightarrow> b),
                mqttClient = False,
                autoLockTimeout = None,
                monitorIntervalHandle = None,
                lockDelayTimeout = None,
                unlockDelayTimeout = None,
                timers = [],
                nextTimer = t0,
                actions = [],
                logs = []\<rparr>;
          s1 = act (SetName (name cfg)) s0;
          s2 = act (UpdateCharacteristic LockCurrentState (lockValue (isLocked s1))) s1;
          s3 = act (UpdateCharacteristic LockTargetState (lockValue (targetState s2))) s2;
          s4 = setupMode s3
      in if orFalse (autoLock (config s4)) then setupAutoLock s4 else s4)"

section \<open>Timer expiry and shutdown\<close>

text \<open>The closures handed to \<^verbatim>\<open>setTimeout\<close> and \<^verbatim>\<open>setInterval\<close>.\<close>

definition runCallback :: "callback \<Rightarrow> exec_result \<Rightarrow> PowerLockAccessory \<Rightarrow> PowerLockAccessory" where
  "runCallback cb r s =
     (case cb of
        LockDelayCb \<Rightarrow>
          (case commandSettings (config s) of
             None \<Rightarrow> s
           | Some cs \<Rightarrow> updateLockState True (orFalse (autoLock (config s)))
                         (executeCommand (closeCommand cs) ''closeCommand'' r s))
      | UnlockDelayCb \<Rightarrow>
          (case commandSettings (config s) of
             None \<Rightarrow> s
           | Some cs \<Rightarrow> updateLockState False (orFalse (autoLock (config s)))
                         (executeCommand (openCommand cs) ''openCommand'' r s))
      | AutoLockCb \<Rightarrow> updateLockState True False s
      | MonitorCb \<Rightarrow> executeMonitorCommand r s)"

text \<open>
  The event loop runs a pending timer: a timeout leaves the pending list, an interval
  stays. An identifier that is not pending (cleared, or already run) does nothing.
\<close>

definition timerFires :: "nat \<Rightarrow> exec_result \<Rightarrow> PowerLockAccessory \<Rightarrow> PowerLockAccessory" where
  "timerFires i r s =
     (case find (\<lambda>t. tid t = i) (timers s) of
        None \<Rightarrow> s
      | Some t \<Rightarrow>
          runCallback (callback t) r
            (if repeating t then s
             else s\<lparr>timers := filter (\<lambda>t. tid t \<noteq> i) (timers s)\<rparr>))"

text \<open>
  \<^verbatim>\<open>shutdown\<close> (index.ts 489--513). \<open>endThrows\<close> says whether \<^verbatim>\<open>mqttClient.end\<close> throws;
  the method has no handler, so the rest of it is then not run and the promise it
  returns is rejected (the second component).
\<close>

definition shutdown :: "bool \<Rightarrow> PowerLockAccessory \<Rightarrow> PowerLockAccessory \<times> bool" where
  "shutdown endThrows s =
     (let s0 = logInfo ShuttingDown s
      in if mqttClient s0 \<and> endThrows then (act MqttEnd s0, True)
         else
           let s1 = (if mqttClient s0 then act MqttEnd s0 else s0);
               s2 = (case monitorIntervalHandle s1 of None \<Rightarrow> s1
                     | Some i \<Rightarrow> logInfo MonitorCleared (clearTimer (Some i) s1));
               s3 = (case autoLockTimeout s2 of None \<Rightarrow> s2
                     | Some i \<Rightarrow> logDebug AutoLockCleared (clearTimer (Some i) s2));
               s4 = (case lockDelayTimeout s3 of None \<Rightarrow> s3
                     | Some i \<Rightarrow> logDebug LockDelayCleared (clearTimer (Some i) s3));
               s5 = (case unlockDelayTimeout s4 of None \<Rightarrow> s4
                     | Some i \<Rightarrow> logDebug UnlockDelayCleared (clearTimer (Some i) s4))
           in (s5, False))"

definition onEnded :: "PowerLockAccessory \<Rightarrow> PowerLockAccessory" where
  "onEnded s = logInfo MqttClosed s"

section \<open>Everything that can happen to an accessory\<close>

datatype event =
    SetTargetState int exec_result
  | TimerFires nat exec_result
  | Message string string
  | Connect
  | SubscribeDone "string option"
  | PublishDone string "string option"
  | ClientError bool string
  | Reconnect
  | Shutdown bool
  | Ended

fun step :: "PowerLockAccessory \<Rightarrow> event \<Rightarrow> PowerLockAccessory" where
  "step s (SetTargetState v r) = setTargetState v r s"
| "step s (TimerFires i r) = timerFires i r s"
| "step s (Message topic msg) = onMessage topic msg s"
| "step s Connect = onConnect s"
| "step s (SubscribeDone err) = onSubscribed err s"
| "step s (PublishDone msg err) = onPublished msg err s"
| "step s (ClientError na m) = onError na m s"
| "step s Reconnect = onReconnect s"
| "step s (Shutdown endThrows) = fst (shutdown endThrows s)"
| "step s Ended = onEnded s"

definition run :: "PowerLockAccessory \<Rightarrow> event list \<Rightarrow> PowerLockAccessory" where
  "run s es = foldl step s es"

text \<open>What an accessory has written to the two HomeKit characteristics, in order.\<close>

fun hostWrite :: "action \<Rightarrow> (characteristic \<times> int) list" where
  "hostWrite (UpdateCharacteristic c v) = [(c, v)]"
| "hostWrite _ = []"

definition hostWrites :: "PowerLockAccessory \<Rightarrow> (characteristic \<times> int) list" where
  "hostWrites s = concat (map hostWrite (actions s))"

section \<open>The platform\<close>

text \<open>
  \<^verbatim>\<open>validateConfig\<close> (index.ts 591--701) throws an \<^verbatim>\<open>Error\<close>; here it returns which one,
  with the lock's name. The \<^verbatim>\<open>typeof ... !== 'number'\<close> tests are false for every value
  of the declared type of the delays.
\<close>

datatype config_error =
    NoMqttSettings string
  | NoMqttBroker string
  | NoTopicSubscribe string
  | NoTopicPublish string
  | CredentialsIncomplete string
  | NoCommandSettings string
  | NoCommandFields string
  | InvalidMonitorInterval string
  | InvalidMode string string
  | InvalidLockDelay string
  | InvalidUnlockDelay string
  | InvalidAutoLockDelay string
  | InvalidLogging string

definition validateMode :: "LockConfig \<Rightarrow> config_error option" where
  "validateMode c =
     (if mode c = ''mqtt'' then
        (case mqttSettings c of
           None \<Rightarrow> Some (NoMqttSettings (name c))
         | Some m \<Rightarrow>
             if mqttBroker m = [] then Some (NoMqttBroker (name c))
             else if mqttTopicSubscribe m = [] then Some (NoTopicSubscribe (name c))
             else if mqttTopicPublish m = [] then Some (NoTopicPublish (name c))
             else if (truthyS (mqttUsername m) \<and> \<not> truthyS (mqttPassword m))
                     \<or> (\<not> truthyS (mqttUsername m) \<and> truthyS (mqttPassword m))
             then Some (CredentialsIncomplete (name c))
             else None)
      else if mode c = ''command'' then
        (case commandSettings c of
           None \<Rightarrow> Some (NoCommandSettings (name c))
         | Some cs \<Rightarrow>
             if openCommand cs = [] \<or> closeCommand cs = [] \<or> monitorCommand cs = []
                \<or> monitorInterval cs = 0
             then Some (NoCommandFields (name c))
             else if monitorInterval cs \<le> 0 then Some (InvalidMonitorInterval (name c))
             else None)
      else if mode c = ''dummy'' then None
      else Some (InvalidMode (name c) (mode c)))"

definition negative :: "int option \<Rightarrow> bool" where
  "negative v = (case v of None \<Rightarrow> False | Some d \<Rightarrow> d < 0)"

definition notPositive :: "int option \<Rightarrow> bool" where
  "notPositive v = (case v of None \<Rightarrow> False | Some d \<Rightarrow> d \<le> 0)"

definition validateConfig :: "LockConfig \<Rightarrow> config_error + unit" where
  "validateConfig c =
     (case validateMode c of
        Some e \<Rightarrow> Inl e
      | None \<Rightarrow>
          if negative (lockDelay c) then Inl (InvalidLockDelay (name c))
          else if negative (unlockDelay c) then Inl (InvalidUnlockDelay (name c))
          else if orFalse (autoLock c) \<and> notPositive (autoLockDelay c)
          then Inl (InvalidAutoLockDelay (name c))
          else if (case logging c of None \<Rightarrow> False
                   | Some l \<Rightarrow> l \<notin> set [''debug'', ''normal'', ''minimal''])
          then Inl (InvalidLogging (name c))
          else Inr ())"

text \<open>
  \<^verbatim>\<open>PowerLockPlatform\<close> (index.ts 516--713): the configured locks (\<open>None\<close> when
  \<^verbatim>\<open>config.locks\<close> is missing or not an array), the accessories restored from the
  cache, and what discovery has done so far: the controllers constructed, the calls to
  the Homebridge API and the platform's log lines.
\<close>

datatype platform_message =
    NoLocksConfigured
  | ConfigError config_error
  | Restoring string
  | AddingNew string

datatype api_call = UpdatePlatformAccessories string | RegisterPlatformAccessories string

record PowerLockPlatform =
  locks :: "LockConfig list option"
  accessories :: "PlatformAccessory list"
  instances :: "PowerLockAccessory list"
  apiCalls :: "api_call list"
  platformLog :: "(level \<times> platform_message) list"

text \<open>
  The host. Everything the loop of \<^verbatim>\<open>discoverDevices\<close> calls after validation runs
  outside its \<^verbatim>\<open>try\<close>, so an exception there ends the loop. \<open>generate\<close> is
  \<^verbatim>\<open>api.hap.uuid.generate\<close>; \<open>controllerThrows\<close> says for which locks the constructor of
  \<^verbatim>\<open>PowerLockAccessory\<close> throws (it reaches into the host's services and connects to the
  broker), \<open>registrationThrows\<close> for which calls the registration or update of the
  accessory does, given the calls made before (the host refuses a UUID it has already).
\<close>

datatype thrown = EmptyDisplayName | ControllerThrew | RegistrationThrew

record Host =
  generate :: "string \<Rightarrow> string"
  controllerThrows :: "LockConfig \<Rightarrow> bool"
  registrationThrows :: "api_call list \<Rightarrow> api_call \<Rightarrow> bool"

text \<open>
  \<^verbatim>\<open>new this.api.platformAccessory(name, uuid)\<close>. The host's constructor throws when the
  display name is empty; otherwise the accessory is new, with an empty context.
\<close>

definition accessoryObject :: "string \<Rightarrow> string \<Rightarrow> PlatformAccessory" where
  "accessoryObject n u =
     \<lparr>displayName = n, UUID = u, context_isLocked = None, context_targetState = None,
      context_instance = False, lockMechanism = False\<rparr>"

definition platformAccessory :: "string \<Rightarrow> string \<Rightarrow> thrown + PlatformAccessory" where
  "platformAccessory n u = (if n = [] then Inl EmptyDisplayName else Inr (accessoryObject n u))"

text \<open>
  \<^verbatim>\<open>new PowerLockAccessory(...)\<close> and the call to the API that follows it in both
  branches of the loop (index.ts 568--574, 581--586).
\<close>

definition addController ::
  "Host \<Rightarrow> PowerLockPlatform \<Rightarrow> LockConfig \<Rightarrow> PlatformAccessory \<Rightarrow> api_call
     \<Rightarrow> PowerLockPlatform \<times> thrown option" where
  "addController h p lockConfig acc call =
     (if controllerThrows h lockConfig then (p, Some ControllerThrew)
      else
        let p1 = p\<lparr>instances := instances p @ [construct lockConfig acc 0]\<rparr>
        in if registrationThrows h (apiCalls p1) call then (p1, Some RegistrationThrew)
           else (p1\<lparr>apiCalls := apiCalls p1 @ [call]\<rparr>, None))"

text \<open>
  One pass of the loop of \<^verbatim>\<open>discoverDevices\<close> (index.ts 551--588): the platform after it,
  and the exception that left the loop, if any. Only \<^verbatim>\<open>validateConfig\<close> is inside the
  \<^verbatim>\<open>try\<close>.
\<close>

definition discoverLock ::
  "Host \<Rightarrow> PowerLockPlatform \<Rightarrow> LockConfig \<Rightarrow> PowerLockPlatform \<times> thrown option" where
  "discoverLock h p lockConfig =
     (case validateConfig lockConfig of
        Inl e \<Rightarrow> (p\<lparr>platformLog := platformLog p @ [(Error, ConfigError e)]\<rparr>, None)
      | Inr _ \<Rightarrow>
          let uuid = generate h (name lockConfig)
          in (case find (\<lambda>acc. UUID acc = uuid) (accessories p) of
                Some existingAccessory \<Rightarrow>
                  addController h
                    (p\<lparr>platformLog := platformLog p
                         @ [(Info, Restoring (displayName existingAccessory))]\<rparr>)
                    lockConfig existingAccessory (UpdatePlatformAccessories uuid)
              | None \<Rightarrow>
                  let p1 = p\<lparr>platformLog := platformLog p
                                @ [(Info, AddingNew (name lockConfig))]\<rparr>
                  in (case platformAccessory (name lockConfig) uuid of
                        Inl x \<Rightarrow> (p1, Some x)
                      | Inr newAccessory \<Rightarrow>
                          addController h p1 lockConfig newAccessory
                            (RegisterPlatformAccessories uuid))))"

fun discoverLoop ::
  "Host \<Rightarrow> PowerLockPlatform \<Rightarrow> LockConfig list \<Rightarrow> PowerLockPlatform \<times> thrown option" where
  "discoverLoop h p [] = (p, None)"
| "discoverLoop h p (lockConfig # rest) =
     (case discoverLock h p lockConfig of
        (p', Some x) \<Rightarrow> (p', Some x)
      | (p', None) \<Rightarrow> discoverLoop h p' rest)"


text \<open>
  What discovery does with one lock when nothing throws: the accessory it hands to the
  constructor (the cached one with the lock's UUID, or a new one), and the line it logs.
\<close>

definition accessoryFor :: "Host \<Rightarrow> PowerLockPlatform \<Rightarrow> LockConfig \<Rightarrow> PlatformAccessory" where
  "accessoryFor h p c =
     (case find (\<lambda>acc. UUID acc = generate h (name c)) (accessories p) of
        Some a \<Rightarrow> a
      | None \<Rightarrow> accessoryObject (name c) (generate h (name c)))"

definition valid :: "LockConfig \<Rightarrow> bool" where
  "valid c = (validateConfig c = Inr ())"

definition discoveryLine ::
  "Host \<Rightarrow> PowerLockPlatform \<Rightarrow> LockConfig \<Rightarrow> level \<times> platform_message" where
  "discoveryLine h p c =
     (case validateConfig c of
        Inl e \<Rightarrow> (Error, ConfigError e)
      | Inr _ \<Rightarrow>
          (case find (\<lambda>acc. UUID acc = generate h (name c)) (accessories p) of
             Some a \<Rightarrow> (Info, Restoring (displayName a))
           | None \<Rightarrow> (Info, AddingNew (name c))))"

text \<open>A host in which nothing but the accessory's constructor can throw.\<close>

definition quietHost :: Host where
  "quietHost =
     \<lparr>generate = (\<lambda>n. ''uuid-'' @ n), controllerThrows = (\<lambda>c. False),
      registrationThrows = (\<lambda>cs a. False)\<rparr>"

section \<open>The earlier JavaScript accessory\<close>

text \<open>
  The repository also holds the plugin's earlier \<^verbatim>\<open>PowerLockAccessory\<close> in plain
  JavaScript, with its own \<^verbatim>\<open>cleanup\<close> and \<^verbatim>\<open>clearLockUnlockDelays\<close>. Its fields keep
  their names, with an \<open>L\<close> after those the TypeScript class has too; its log lines
  are left out. \<^verbatim>\<open>configure\<close> takes every setting from the configuration or a default.
\<close>

record LegacyConfig =
  cfg_lockName :: "string option"
  cfg_mode :: "string option"
  cfg_autoLock :: "bool option"
  cfg_autoLockDelay :: "int option"
  cfg_lockDelay :: "int option"
  cfg_unlockDelay :: "int option"
  cfg_mqttBrokerUrl :: "string option"
  cfg_mqttUsername :: "string option"
  cfg_mqttPassword :: "string option"
  cfg_mqttTopic :: "string option"
  cfg_mqttMessageOpen :: "string option"
  cfg_mqttMessageClosed :: "string option"
  cfg_mqttMessageSendOpen :: "string option"
  cfg_mqttMessageSendClosed :: "string option"
  cfg_cmdPollInterval :: "int option"
  cfg_cmdPollCommand :: "string option"
  cfg_cmdLockCommand :: "string option"
  cfg_cmdUnlockCommand :: "string option"

record LegacySettings =
  lockName :: string
  modeL :: string
  autoLockL :: bool
  autoLockDelayL :: int
  lockDelayL :: int
  unlockDelayL :: int
  mqttBrokerUrl :: string
  mqttUsernameL :: string
  mqttPasswordL :: string
  mqttTopic :: string
  mqttMessageOpen :: string
  mqttMessageClosed :: string
  mqttMessageSendOpen :: string
  mqttMessageSendClosed :: string
  cmdPollInterval :: int
  cmdPollCommand :: string
  cmdLockCommand :: string
  cmdUnlockCommand :: string

record LegacyAccessory =
  settings :: LegacySettings
  currentState :: int
  targetStateL :: int
  pollIntervalObj :: "nat option"
  autoLockTimeoutL :: "nat option"
  lockDelayTimeoutL :: "nat option"
  unlockDelayTimeoutL :: "nat option"
  mqttClientL :: bool
  timersL :: "timer list"
  nextTimerL :: nat
  actionsL :: "action list"

definition actL :: "action \<Rightarrow> LegacyAccessory \<Rightarrow> LegacyAccessory" where
  "actL a s = s\<lparr>actionsL := actionsL s @ [a]\<rparr>"

definition setTimerL ::
  "callback \<Rightarrow> int \<Rightarrow> bool \<Rightarrow> LegacyAccessory \<Rightarrow> nat \<times> LegacyAccessory" where
  "setTimerL cb d rep s =
     (nextTimerL s,
      s\<lparr>timersL := timersL s @ [\<lparr>tid = nextTimerL s, callback = cb, delayMs = d, repeating = rep\<rparr>],
        nextTimerL := Suc (nextTimerL s)\<rparr>)"

definition cancelL :: "nat option \<Rightarrow> LegacyAccessory \<Rightarrow> LegacyAccessory" where
  "cancelL h s =
     (case h of None \<Rightarrow> s
      | Some i \<Rightarrow> s\<lparr>timersL := filter (\<lambda>t. tid t \<noteq> i) (timersL s)\<rparr>)"

text \<open>
  \<^verbatim>\<open>cleanup\<close> (part_000 187--219). \<open>endThrows\<close> says whether \<^verbatim>\<open>mqttClient.end\<close> throws;
  the \<^verbatim>\<open>catch\<close> ignores it. The second component says whether \<^verbatim>\<open>cleanup\<close> itself
  throws.
\<close>

definition cleanup :: "bool \<Rightarrow> LegacyAccessory \<Rightarrow> LegacyAccessory \<times> bool" where
  "cleanup endThrows s =
     (let s1 = (cancelL (pollIntervalObj s) s)\<lparr>pollIntervalObj := None\<rparr>;
          s2 = (cancelL (autoLockTimeoutL s1) s1)\<lparr>autoLockTimeoutL := None\<rparr>;
          s3 = (cancelL (lockDelayTimeoutL s2) s2)\<lparr>lockDelayTimeoutL := None\<rparr>;
          s4 = (cancelL (unlockDelayTimeoutL s3) s3)\<lparr>unlockDelayTimeoutL := None\<rparr>;
          s5 = (if mqttClientL s4
                then (if endThrows then actL MqttEnd s4 else actL MqttEnd s4)\<lparr>mqttClientL := False\<rparr>
                else s4)
      in (s5, False))"

text \<open>\<^verbatim>\<open>clearLockUnlockDelays\<close> (part_000 264--273).\<close>

definition clearLockUnlockDelays :: "LegacyAccessory \<Rightarrow> LegacyAccessory" where
  "clearLockUnlockDelays s =
     (let s1 = (cancelL (lockDelayTimeoutL s) s)\<lparr>lockDelayTimeoutL := None\<rparr>
      in (cancelL (unlockDelayTimeoutL s1) s1)\<lparr>unlockDelayTimeoutL := None\<rparr>)"

definition updateHomeKitStates :: "LegacyAccessory \<Rightarrow> LegacyAccessory" where
  "updateHomeKitStates s =
     actL (UpdateCharacteristic LockTargetState (targetStateL s))
       (actL (UpdateCharacteristic LockCurrentState (currentState s)) s)"

text \<open>\<^verbatim>\<open>doLock\<close> and \<^verbatim>\<open>doUnlock\<close> (part_000 275--340).\<close>

definition doLock :: "LegacyAccessory \<Rightarrow> LegacyAccessory" where
  "doLock s =
     (let s1 = (if modeL (settings s) = ''mqtt'' \<and> mqttClientL s
                   \<and> mqttMessageSendClosed (settings s) \<noteq> []
                then actL (MqttPublish (mqttTopic (settings s))
                       (mqttMessageSendClosed (settings s))) s
                else s);
          s2 = (if modeL (settings s1) = ''cmd'' \<and> cmdLockCommand (settings s1) \<noteq> []
                then actL (Exec (cmdLockCommand (settings s1))) s1 else s1)
      in updateHomeKitStates (s2\<lparr>currentState := SECURED, targetStateL := SECURED\<rparr>))"

definition doUnlock :: "LegacyAccessory \<Rightarrow> LegacyAccessory" where
  "doUnlock s =
     (let s1 = (if modeL (settings s) = ''mqtt'' \<and> mqttClientL s
                   \<and> mqttMessageSendOpen (settings s) \<noteq> []
                then actL (MqttPublish (mqttTopic (settings s))
                       (mqttMessageSendOpen (settings s))) s
                else s);
          s2 = (if modeL (settings s1) = ''cmd'' \<and> cmdUnlockCommand (settings s1) \<noteq> []
                then actL (Exec (cmdUnlockCommand (settings s1))) s1 else s1);
          s3 = updateHomeKitStates (s2\<lparr>currentState := UNSECURED, targetStateL := UNSECURED\<rparr>)
      in if autoLockL (settings s3) then
           let (i, s4) = setTimerL AutoLockCb (autoLockDelayL (settings s3) * 1000) False
                           (cancelL (autoLockTimeoutL s3) s3)
           in s4\<lparr>autoLockTimeoutL := Some i\<rparr>
         else s3)"

text \<open>\<^verbatim>\<open>handleTargetStateSet\<close> (part_000 233--262).\<close>

definition handleTargetStateSet :: "int \<Rightarrow> LegacyAccessory \<Rightarrow> LegacyAccessory" where
  "handleTargetStateSet v s =
     (let s0 = s\<lparr>targetStateL := v\<rparr>
      in if v = SECURED then
           (if 0 < lockDelayL (settings s0) then
              let (i, s1) = setTimerL LockDelayCb (lockDelayL (settings s0) * 1000) False
                              (clearLockUnlockDelays s0)
              in s1\<lparr>lockDelayTimeoutL := Some i\<rparr>
            else doLock s0)
         else if v = UNSECURED then
           (if 0 < unlockDelayL (settings s0) then
              let (i, s1) = setTimerL UnlockDelayCb (unlockDelayL (settings s0) * 1000) False
                              (clearLockUnlockDelays s0)
              in s1\<lparr>unlockDelayTimeoutL := Some i\<rparr>
            else doUnlock s0)
         else s0)"

text \<open>The message handler of \<^verbatim>\<open>setupMqtt\<close> (part_000 384--398).\<close>

definition onMessageL :: "string \<Rightarrow> LegacyAccessory \<Rightarrow> LegacyAccessory" where
  "onMessageL msgStr s =
     (if msgStr = mqttMessageOpen (settings s)
      then updateHomeKitStates (s\<lparr>currentState := UNSECURED, targetStateL := UNSECURED\<rparr>)
      else if msgStr = mqttMessageClosed (settings s)
      then updateHomeKitStates (s\<lparr>currentState := SECURED, targetStateL := SECURED\<rparr>)
      else s)"

text \<open>The interval callback of \<^verbatim>\<open>setupCommandPolling\<close> with the result of the poll command.\<close>

definition pollL :: "exec_result \<Rightarrow> LegacyAccessory \<Rightarrow> LegacyAccessory" where
  "pollL r s =
     (let s1 = actL (Exec (cmdPollCommand (settings s))) s
      in case r of
           ExecErr m \<Rightarrow> s1
         | ExecOk out err \<Rightarrow>
             let trimmed = toUpperCase (trim out)
             in updateHomeKitStates
                  (if trimmed = toUpperCase (mqttMessageOpen (settings s1)) \<or> trimmed = ''OPEN''
                   then s1\<lparr>currentState := UNSECURED, targetStateL := UNSECURED\<rparr>
                   else if trimmed = toUpperCase (mqttMessageClosed (settings s1))
                           \<or> trimmed = ''CLOSED''
                   then s1\<lparr>currentState := SECURED, targetStateL := SECURED\<rparr>
                   else s1))"

text \<open>\<^verbatim>\<open>setupMqtt\<close>, \<^verbatim>\<open>setupCommandPolling\<close> and \<^verbatim>\<open>configure\<close> (part_000 148--184, 350--440).\<close>

definition setupMqtt :: "LegacyAccessory \<Rightarrow> LegacyAccessory" where
  "setupMqtt s =
     (if mqttBrokerUrl (settings s) = [] \<or> mqttTopic (settings s) = []
      then s\<lparr>settings := (settings s)\<lparr>modeL := ''dummy''\<rparr>\<rparr>
      else (actL (MqttConnectUrl (mqttBrokerUrl (settings s))
                    (if mqttUsernameL (settings s) \<noteq> [] then Some (mqttUsernameL (settings s))
                     else None)
                    (if mqttPasswordL (settings s) \<noteq> [] then Some (mqttPasswordL (settings s))
                     else None)) s)
           \<lparr>mqttClientL := True\<rparr>)"

definition setupCommandPolling :: "LegacyAccessory \<Rightarrow> LegacyAccessory" where
  "setupCommandPolling s =
     (if cmdPollCommand (settings s) = [] \<or> cmdPollInterval (settings s) = 0
      then s\<lparr>settings := (settings s)\<lparr>modeL := ''dummy''\<rparr>\<rparr>
      else let (i, s1) = setTimerL MonitorCb (cmdPollInterval (settings s) * 1000) True s
           in s1\<lparr>pollIntervalObj := Some i\<rparr>)"

definition resolve :: "LegacyConfig \<Rightarrow> LegacySettings" where
  "resolve c =
     \<lparr>lockName = orElseS (cfg_lockName c) ''Power Lock'',
      modeL = orElseS (cfg_mode c) ''dummy'',
      autoLockL = orFalse (cfg_autoLock c),
      autoLockDelayL = orElse (cfg_autoLockDelay c) 10,
      lockDelayL = orElse (cfg_lockDelay c) 0,
      unlockDelayL = orElse (cfg_unlockDelay c) 0,
      mqttBrokerUrl = orElseS (cfg_mqttBrokerUrl c) [],
      mqttUsernameL = orElseS (cfg_mqttUsername c) [],
      mqttPasswordL = orElseS (cfg_mqttPassword c) [],
      mqttTopic = orElseS (cfg_mqttTopic c) [],
      mqttMessageOpen = orElseS (cfg_mqttMessageOpen c) ''OPEN'',
      mqttMessageClosed = orElseS (cfg_mqttMessageClosed c) ''CLOSED'',
      mqttMessageSendOpen = orElseS (cfg_mqttMessageSendOpen c) ''UNLOCK'',
      mqttMessageSendClosed = orElseS (cfg_mqttMessageSendClosed c) ''LOCK'',
      cmdPollInterval = orElse (cfg_cmdPollInterval c) 0,
      cmdPollCommand = orElseS (cfg_cmdPollCommand c) [],
      cmdLockCommand = orElseS (cfg_cmdLockCommand c) [],
      cmdUnlockCommand = orElseS (cfg_cmdUnlockCommand c) []\<rparr>"

definition configure :: "LegacyConfig \<Rightarrow> bool \<Rightarrow> LegacyAccessory \<Rightarrow> LegacyAccessory" where
  "configure c endThrows s =
     (let s1 = actL (SetName (lockName (resolve c))) (s\<lparr>settings := resolve c\<rparr>);
          s2 = fst (cleanup endThrows s1)
      in if modeL (settings s2) = ''mqtt'' then setupMqtt s2
         else if modeL (settings s2) = ''cmd'' then setupCommandPolling s2
         else s2)"

text \<open>
  The constructor (part_000 111--145). Before \<^verbatim>\<open>configure\<close> has run the settings are
  \<^verbatim>\<open>undefined\<close>; nothing reads them, and the model starts from the configuration's.
\<close>

definition constructL :: "LegacyConfig \<Rightarrow> nat \<Rightarrow> LegacyAccessory" where
  "constructL c t0 =
     (let s0 = \<lparr>settings = resolve c, currentState = SECURED, targetStateL = SECURED,
                pollIntervalObj = None, autoLockTimeoutL = None, lockDelayTimeoutL = None,
                unlockDelayTimeoutL = None, mqttClientL = False, timersL = [],
                nextTimerL = t0, actionsL = []\<rparr>
      in updateHomeKitStates (configure c False (fst (cleanup False s0))))"

text \<open>The closures handed to \<^verbatim>\<open>setTimeout\<close> and \<^verbatim>\<open>setInterval\<close>, and the event loop.\<close>

definition runCallbackL :: "callback \<Rightarrow> exec_result \<Rightarrow> LegacyAccessory \<Rightarrow> LegacyAccessory" where
  "runCallbackL cb r s =
     (case cb of
        LockDelayCb \<Rightarrow> doLock s
      | UnlockDelayCb \<Rightarrow> doUnlock s
      | AutoLockCb \<Rightarrow> doLock (s\<lparr>targetStateL := SECURED\<rparr>)
      | MonitorCb \<Rightarrow> pollL r s)"

definition timerFiresL :: "nat \<Rightarrow> exec_result \<Rightarrow> LegacyAccessory \<Rightarrow> LegacyAccessory" where
  "timerFiresL i r s =
     (case find (\<lambda>t. tid t = i) (timersL s) of
        None \<Rightarrow> s
      | Some t \<Rightarrow>
          runCallbackL (callback t) r
            (if repeating t then s
             else s\<lparr>timersL := filter (\<lambda>t. tid t \<noteq> i) (timersL s)\<rparr>))"

datatype eventL =
    TargetStateSet int
  | TimerFiresL nat exec_result
  | MessageL string
  | Cleanup bool
  | Configure LegacyConfig bool

fun stepL :: "LegacyAccessory \<Rightarrow> eventL \<Rightarrow> LegacyAccessory" where
  "stepL s (TargetStateSet v) = handleTargetStateSet v s"
| "stepL s (TimerFiresL i r) = timerFiresL i r s"
| "stepL s (MessageL m) = onMessageL m s"
| "stepL s (Cleanup endThrows) = fst (cleanup endThrows s)"
| "stepL s (Configure c endThrows) = configure c endThrows s"

definition runL :: "LegacyAccessory \<Rightarrow> eventL list \<Rightarrow> LegacyAccessory" where
  "runL s es = foldl stepL s es"

text \<open>
  Every pending timer is the one its handle refers to, under a fresh identifier, and at
  most one lock or unlock delay is pending.
\<close>

definition handleOf :: "callback \<Rightarrow> LegacyAccessory \<Rightarrow> nat option" where
  "handleOf cb s =
     (case cb of
        LockDelayCb \<Rightarrow> lockDelayTimeoutL s
      | UnlockDelayCb \<Rightarrow> unlockDelayTimeoutL s
      | AutoLockCb \<Rightarrow> autoLockTimeoutL s
      | MonitorCb \<Rightarrow> pollIntervalObj s)"

definition isDelay :: "timer \<Rightarrow> bool" where
  "isDelay t = (callback t = LockDelayCb \<or> callback t = UnlockDelayCb)"

definition ownedL :: "LegacyAccessory \<Rightarrow> bool" where
  "ownedL s =
     (list_all (\<lambda>t. tid t < nextTimerL s \<and> handleOf (callback t) s = Some (tid t)) (timersL s)
      \<and> distinct (map tid (timersL s))
      \<and> length (filter isDelay (timersL s)) \<le> 1)"

section \<open>Invariants of an accessory\<close>

text \<open>Current and target state agree, in the accessory and in the persisted context.\<close>

definition consistent :: "PowerLockAccessory \<Rightarrow> bool" where
  "consistent s =
     (isLocked s = targetState s
      \<and> context_isLocked (accessory s) = context_targetState (accessory s))"

text \<open>Every pending timer was handed out by the event loop before the next free one.\<close>

definition timersFresh :: "PowerLockAccessory \<Rightarrow> bool" where
  "timersFresh s = list_all (\<lambda>t. tid t < nextTimer s) (timers s)"

text \<open>
  For the TypeScript accessory: fresh, distinct identifiers, and every pending auto-lock
  timer is the one the auto-lock handle refers to.
\<close>

definition timersOwned :: "PowerLockAccessory \<Rightarrow> bool" where
  "timersOwned s =
     (timersFresh s \<and> distinct (map tid (timers s))
      \<and> list_all (\<lambda>t. callback t \<noteq> AutoLockCb \<or> autoLockTimeout s = Some (tid t)) (timers s))"

text \<open>
  The branch of \<open>updateLockState\<close> that changes the state, up to its auto-lock test:
  both fields set, both characteristics written, the context persisted, the state
  published.
\<close>

definition writeThrough :: "bool \<Rightarrow> PowerLockAccessory \<Rightarrow> PowerLockAccessory" where
  "writeThrough d s =
     publishState d (logInfo (LockIsNow d)
       ((act (UpdateCharacteristic LockCurrentState (lockValue d))
          (act (UpdateCharacteristic LockTargetState (lockValue d)) (s\<lparr>targetState := d\<rparr>)
             \<lparr>isLocked := d\<rparr>))
        \<lparr>accessory := (accessory s)\<lparr>context_isLocked := Some d, context_targetState := Some d\<rparr>\<rparr>))"

section \<open>The locks of the README's example configuration\<close>

definition frontDoor :: LockConfig where
  "frontDoor =
     \<lparr>name = ''Front Door Lock'', mode = ''mqtt'', autoLock = Some True,
      autoLockDelay = Some 30, lockDelay = Some 5, unlockDelay = Some 5,
      logging = Some ''normal'',
      mqttSettings = Some
        \<lparr>mqttBroker = ''mqtt://localhost'', mqttPort = Some 1883,
         mqttUsername = Some ''mqttuser'', mqttPassword = Some ''mqttpass'',
         mqttTopicSubscribe = ''home/lock/command'', mqttOpenMessage = ''open'',
         mqttCloseMessage = ''close'', mqttTopicPublish = ''home/lock/state'',
         mqttPublishOpenMessage = ''opened'', mqttPublishCloseMessage = ''closed''\<rparr>,
      commandSettings = None\<rparr>"

definition garage :: LockConfig where
  "garage =
     \<lparr>name = ''Garage Lock'', mode = ''command'', autoLock = Some False,
      autoLockDelay = None, lockDelay = Some 0, unlockDelay = Some 0,
      logging = Some ''debug'', mqttSettings = None,
      commandSettings = Some
        \<lparr>openCommand = ''garage-unlock'', closeCommand = ''garage-lock'',
         monitorCommand = ''garage-state'', monitorInterval = 60\<rparr>\<rparr>"

definition testDummy :: LockConfig where
  "testDummy =
     \<lparr>name = ''Test Dummy Lock'', mode = ''dummy'', autoLock = Some False,
      autoLockDelay = None, lockDelay = None, unlockDelay = None,
      logging = Some ''minimal'', mqttSettings = None, commandSettings = None\<rparr>"

text \<open>An accessory restored from the cache with the lock persisted as unsecured.\<close>

definition unsecuredAccessory :: "string \<Rightarrow> string \<Rightarrow> PlatformAccessory" where
  "unsecuredAccessory n u =
     (accessoryObject n u)\<lparr>context_isLocked := Some False, context_targetState := Some False\<rparr>"

text \<open>The same locks with the delays and the auto-lock the claims speak of.\<close>

definition slowGarage :: LockConfig where
  "slowGarage = garage\<lparr>lockDelay := Some 5, unlockDelay := Some 5\<rparr>"

definition autoGarage :: LockConfig where
  "autoGarage = garage\<lparr>autoLock := Some True, autoLockDelay := Some 10\<rparr>"

definition slowDummy :: LockConfig where
  "slowDummy = testDummy\<lparr>lockDelay := Some 5, unlockDelay := Some 5\<rparr>"

definition autoDummy :: LockConfig where
  "autoDummy = testDummy\<lparr>autoLock := Some True, autoLockDelay := Some 10\<rparr>"

text \<open>Controllers as the constructor leaves them, secured by default or restored unsecured.\<close>

definition garageLock :: PowerLockAccessory where
  "garageLock = construct garage (accessoryObject ''Garage Lock'' ''uuid-garage'') 0"

definition slowGarageLock :: PowerLockAccessory where
  "slowGarageLock = construct slowGarage (accessoryObject ''Garage Lock'' ''uuid-garage'') 0"

definition slowGarageUnsecured :: PowerLockAccessory where
  "slowGarageUnsecured
     = construct slowGarage (unsecuredAccessory ''Garage Lock'' ''uuid-garage'') 0"

definition autoGarageLock :: PowerLockAccessory where
  "autoGarageLock = construct autoGarage (accessoryObject ''Garage Lock'' ''uuid-garage'') 0"

definition dummyLock :: PowerLockAccessory where
  "dummyLock = construct testDummy (accessoryObject ''Test Dummy Lock'' ''uuid-dummy'') 0"

definition slowDummyUnsecured :: PowerLockAccessory where
  "slowDummyUnsecured
     = construct slowDummy (unsecuredAccessory ''Test Dummy Lock'' ''uuid-dummy'') 0"

definition autoDummyLock :: PowerLockAccessory where
  "autoDummyLock = construct autoDummy (accessoryObject ''Test Dummy Lock'' ''uuid-dummy'') 0"

definition autoDummyUnsecured :: PowerLockAccessory where
  "autoDummyUnsecured
     = construct autoDummy (unsecuredAccessory ''Test Dummy Lock'' ''uuid-dummy'') 0"

definition frontDoorLock :: PowerLockAccessory where
  "frontDoorLock
     = construct frontDoor (accessoryObject ''Front Door Lock'' ''uuid-front'') 0"

text \<open>A platform whose first lock lacks its MQTT settings.\<close>

definition brokenFrontDoor :: LockConfig where
  "brokenFrontDoor = frontDoor\<lparr>mqttSettings := None\<rparr>"

definition namelessDummy :: LockConfig where
  "namelessDummy = testDummy\<lparr>name := []\<rparr>"

definition examplePlatform :: PowerLockPlatform where
  "examplePlatform =
     \<lparr>locks = Some [brokenFrontDoor, garage, testDummy], accessories = [], instances = [],
      apiCalls = [], platformLog = []\<rparr>"

section \<open>Basic facts\<close>

lemma logDebug_fields [simp]:
  "accessory (logDebug m s) = accessory s" "config (logDebug m s) = config s"
  "isLocked (logDebug m s) = isLocked s" "targetState (logDebug m s) = targetState s"
  "mqttClient (logDebug m s) = mqttClient s" "autoLockTimeout (logDebug m s) = autoLockTimeout s"
  "monitorIntervalHandle (logDebug m s) = monitorIntervalHandle s"
  "lockDelayTimeout (logDebug m s) = lockDelayTimeout s"
  "unlockDelayTimeout (logDebug m s) = unlockDelayTimeout s"
  "timers (logDebug m s) = timers s" "nextTimer (logDebug m s) = nextTimer s"
  "actions (logDebug m s) = actions s"
  by (simp_all add: logDebug_def)

lemma logInfo_fields [simp]:
  "accessory (logInfo m s) = accessory s" "config (logInfo m s) = config s"
  "isLocked (logInfo m s) = isLocked s" "targetState (logInfo m s) = targetState s"
  "mqttClient (logInfo m s) = mqttClient s" "autoLockTimeout (logInfo m s) = autoLockTimeout s"
  "monitorIntervalHandle (logInfo m s) = monitorIntervalHandle s"
  "lockDelayTimeout (logInfo m s) = lockDelayTimeout s"
  "unlockDelayTimeout (logInfo m s) = unlockDelayTimeout s"
  "timers (logInfo m s) = timers s" "nextTimer (logInfo m s) = nextTimer s"
  "actions (logInfo m s) = actions s"
  by (simp_all add: logInfo_def)

lemma logError_fields [simp]:
  "accessory (logError m s) = accessory s" "config (logError m s) = config s"
  "isLocked (logError m s) = isLocked s" "targetState (logError m s) = targetState s"
  "mqttClient (logError m s) = mqttClient s" "autoLockTimeout (logError m s) = autoLockTimeout s"
  "monitorIntervalHandle (logError m s) = monitorIntervalHandle s"
  "lockDelayTimeout (logError m s) = lockDelayTimeout s"
  "unlockDelayTimeout (logError m s) = unlockDelayTimeout s"
  "timers (logError m s) = timers s" "nextTimer (logError m s) = nextTimer s"
  "actions (logError m s) = actions s"
  by (simp_all add: logError_def)

lemma act_fields [simp]:
  "accessory (act a s) = accessory s" "config (act a s) = config s"
  "isLocked (act a s) = isLocked s" "targetState (act a s) = targetState s"
  "mqttClient (act a s) = mqttClient s" "autoLockTimeout (act a s) = autoLockTimeout s"
  "monitorIntervalHandle (act a s) = monitorIntervalHandle s"
  "lockDelayTimeout (act a s) = lockDelayTimeout s"
  "unlockDelayTimeout (act a s) = unlockDelayTimeout s"
  "timers (act a s) = timers s" "nextTimer (act a s) = nextTimer s"
  "logs (act a s) = logs s" "actions (act a s) = actions s @ [a]"
  by (simp_all add: act_def)

lemma publishState_fields [simp]:
  "accessory (publishState d s) = accessory s" "config (publishState d s) = config s"
  "isLocked (publishState d s) = isLocked s" "targetState (publishState d s) = targetState s"
  "mqttClient (publishState d s) = mqttClient s" "autoLockTimeout (publishState d s) = autoLockTimeout s"
  "monitorIntervalHandle (publishState d s) = monitorIntervalHandle s"
  "lockDelayTimeout (publishState d s) = lockDelayTimeout s"
  "unlockDelayTimeout (publishState d s) = unlockDelayTimeout s"
  "timers (publishState d s) = timers s" "nextTimer (publishState d s) = nextTimer s"
  "logs (publishState d s) = logs s"
  by (simp_all add: publishState_def split: option.split)

lemma updateLockState_noauto_timers:
  "timers (updateLockState d False s) = timers s"
  "autoLockTimeout (updateLockState d False s) = autoLockTimeout s"
  "nextTimer (updateLockState d False s) = nextTimer s"
  by (simp_all add: updateLockState_def Let_def)

lemma hostWrites_log [simp]:
  "hostWrites (logDebug m s) = hostWrites s"
  "hostWrites (logInfo m s) = hostWrites s"
  "hostWrites (logError m s) = hostWrites s"
  by (simp_all add: hostWrites_def)

lemma hostWrites_act [simp]: "hostWrites (act a s) = hostWrites s @ hostWrite a"
  by (simp add: hostWrites_def)

lemma setupMQTT_keeps [simp]:
  "isLocked (setupMQTT s) = isLocked s" "targetState (setupMQTT s) = targetState s"
  "accessory (setupMQTT s) = accessory s" "config (setupMQTT s) = config s"
  "hostWrites (setupMQTT s) = hostWrites s"
  by (simp_all add: setupMQTT_def hostWrites_def act_def split: option.split)

lemma setupCommandLine_keeps [simp]:
  "isLocked (setupCommandLine s) = isLocked s" "targetState (setupCommandLine s) = targetState s"
  "accessory (setupCommandLine s) = accessory s" "config (setupCommandLine s) = config s"
  "hostWrites (setupCommandLine s) = hostWrites s"
  by (simp_all add: setupCommandLine_def setTimer_def hostWrites_def split: option.split)

lemma setupMode_keeps [simp]:
  "isLocked (setupMode s) = isLocked s" "targetState (setupMode s) = targetState s"
  "accessory (setupMode s) = accessory s" "config (setupMode s) = config s"
  "hostWrites (setupMode s) = hostWrites s"
  by (simp_all add: setupMode_def setupDummy_def)

lemma clearTimer_fields [simp]:
  "accessory (clearTimer h s) = accessory s" "config (clearTimer h s) = config s"
  "isLocked (clearTimer h s) = isLocked s" "targetState (clearTimer h s) = targetState s"
  "mqttClient (clearTimer h s) = mqttClient s" "autoLockTimeout (clearTimer h s) = autoLockTimeout s"
  "monitorIntervalHandle (clearTimer h s) = monitorIntervalHandle s"
  "lockDelayTimeout (clearTimer h s) = lockDelayTimeout s"
  "unlockDelayTimeout (clearTimer h s) = unlockDelayTimeout s"
  "nextTimer (clearTimer h s) = nextTimer s"
  "actions (clearTimer h s) = actions s" "logs (clearTimer h s) = logs s"
  by (simp_all add: clearTimer_def split: option.split)

lemma armAutoLock_fields [simp]:
  "accessory (armAutoLock s) = accessory s" "config (armAutoLock s) = config s"
  "isLocked (armAutoLock s) = isLocked s" "targetState (armAutoLock s) = targetState s"
  "mqttClient (armAutoLock s) = mqttClient s"
  "monitorIntervalHandle (armAutoLock s) = monitorIntervalHandle s"
  "lockDelayTimeout (armAutoLock s) = lockDelayTimeout s"
  "unlockDelayTimeout (armAutoLock s) = unlockDelayTimeout s"
  "actions (armAutoLock s) = actions s"
  by (simp_all add: armAutoLock_def setTimer_def Let_def)

lemma executeCommand_fields [simp]:
  "accessory (executeCommand c n r s) = accessory s" "config (executeCommand c n r s) = config s"
  "isLocked (executeCommand c n r s) = isLocked s" "targetState (executeCommand c n r s) = targetState s"
  "mqttClient (executeCommand c n r s) = mqttClient s"
  "autoLockTimeout (executeCommand c n r s) = autoLockTimeout s"
  "monitorIntervalHandle (executeCommand c n r s) = monitorIntervalHandle s"
  "lockDelayTimeout (executeCommand c n r s) = lockDelayTimeout s"
  "unlockDelayTimeout (executeCommand c n r s) = unlockDelayTimeout s"
  "timers (executeCommand c n r s) = timers s" "nextTimer (executeCommand c n r s) = nextTimer s"
  "actions (executeCommand c n r s) = (if c = [] then actions s else actions s @ [Exec c])"
  by (simp_all add: executeCommand_def Let_def split: exec_result.split)

lemma hostWrites_more [simp]:
  "hostWrites (publishState d s) = hostWrites s"
  "hostWrites (armAutoLock s) = hostWrites s"
  "hostWrites (executeCommand c n r s) = hostWrites s"
  by (simp_all add: hostWrites_def publishState_def split: option.split)

lemma updateLockState_state:
  "isLocked (updateLockState d a s) = d" "targetState (updateLockState d a s) = d"
  by (auto simp add: updateLockState_def Let_def)

lemma updateLockState_config [simp]: "config (updateLockState d a s) = config s"
  by (simp add: updateLockState_def Let_def)

lemma updateLockState_context:
  "context_isLocked (accessory s) = context_targetState (accessory s) \<Longrightarrow>
   context_isLocked (accessory (updateLockState d a s))
     = context_targetState (accessory (updateLockState d a s))"
  by (simp add: updateLockState_def Let_def)

lemma updateLockState_in_place:
  "isLocked s = d \<Longrightarrow> targetState s = d \<Longrightarrow>
   updateLockState d a s = logDebug (LockAlready d) s"
  by (simp add: updateLockState_def)

lemma updateLockState_writeThrough:
  "\<not> (d = isLocked s \<and> targetState s = d) \<Longrightarrow>
   updateLockState d a s
     = (if a \<and> orFalse (autoLock (config s)) \<and> \<not> d then armAutoLock (writeThrough d s)
        else writeThrough d s)"
  by (simp only: updateLockState_def if_not_P) (simp add: Let_def writeThrough_def act_def)

lemma writeThrough_fields [simp]:
  "config (writeThrough d s) = config s"
  "timers (writeThrough d s) = timers s" "nextTimer (writeThrough d s) = nextTimer s"
  "autoLockTimeout (writeThrough d s) = autoLockTimeout s"
  "hostWrites (writeThrough d s)
     = hostWrites s @ [(LockTargetState, lockValue d), (LockCurrentState, lockValue d)]"
  "context_isLocked (accessory (writeThrough d s)) = Some d"
  "context_targetState (accessory (writeThrough d s)) = Some d"
  by (simp_all add: writeThrough_def) (simp add: hostWrites_def act_def)

lemma hostWrites_updateLockState:
  "\<not> (d = isLocked s \<and> targetState s = d) \<Longrightarrow>
   hostWrites (updateLockState d a s)
     = hostWrites s @ [(LockTargetState, lockValue d), (LockCurrentState, lockValue d)]"
  by (simp add: updateLockState_writeThrough)

lemma context_updateLockState:
  "\<not> (d = isLocked s \<and> targetState s = d) \<Longrightarrow>
   context_isLocked (accessory (updateLockState d a s)) = Some d
   \<and> context_targetState (accessory (updateLockState d a s)) = Some d"
  by (simp add: updateLockState_writeThrough)

lemma updateLockState_changes:
  "\<not> (d = isLocked s \<and> targetState s = d) \<Longrightarrow> mode (config s) \<noteq> ''mqtt'' \<Longrightarrow>
   actions (updateLockState d a s)
     = actions s @ [UpdateCharacteristic LockTargetState (lockValue d),
                    UpdateCharacteristic LockCurrentState (lockValue d)]"
  by (simp add: updateLockState_def Let_def publishState_def split: option.split)

lemma armAutoLock_timers:
  "timers (armAutoLock s)
     = filter (\<lambda>t. Some (tid t) \<noteq> autoLockTimeout s) (timers s)
       @ [\<lparr>tid = nextTimer s, callback = AutoLockCb,
           delayMs = orElse (autoLockDelay (config s)) 30 * 1000, repeating = False\<rparr>]"
  "autoLockTimeout (armAutoLock s) = Some (nextTimer s)"
  "nextTimer (armAutoLock s) = Suc (nextTimer s)"
  by (cases "autoLockTimeout s"; simp add: armAutoLock_def Let_def setTimer_def clearTimer_def)+

lemma updateLockState_tids:
  "tid ` set (timers (updateLockState d a s)) \<subseteq> insert (nextTimer s) (tid ` set (timers s))"
  by (auto simp add: updateLockState_def Let_def armAutoLock_timers)

lemma logs_mono_log:
  "set (logs s) \<subseteq> set (logs (logDebug m s))"
  "set (logs s) \<subseteq> set (logs (logInfo m s))"
  "set (logs s) \<subseteq> set (logs (logError m s))"
  by (auto simp add: logDebug_def logInfo_def logError_def)

lemma logs_writeThrough: "set (logs s) \<subseteq> set (logs (writeThrough d s))"
  using logs_mono_log(2) [of "(act (UpdateCharacteristic LockCurrentState (lockValue d))
          (act (UpdateCharacteristic LockTargetState (lockValue d)) (s\<lparr>targetState := d\<rparr>)
             \<lparr>isLocked := d\<rparr>))
        \<lparr>accessory := (accessory s)\<lparr>context_isLocked := Some d, context_targetState := Some d\<rparr>\<rparr>"
        "LockIsNow d"]
  by (simp add: writeThrough_def)

lemma logs_armAutoLock: "set (logs s) \<subseteq> set (logs (armAutoLock s))"
  using logs_mono_log(1) [of "(snd (setTimer AutoLockCb
      (orElse (autoLockDelay (config s)) 30 * 1000) False (clearTimer (autoLockTimeout s) s)))
      \<lparr>autoLockTimeout := Some (nextTimer s)\<rparr>" "AutoLockIn (orElse (autoLockDelay (config s)) 30)"]
  by (simp add: armAutoLock_def Let_def setTimer_def)

lemma logs_updateLockState: "set (logs s) \<subseteq> set (logs (updateLockState d a s))"
proof (cases "d = isLocked s \<and> targetState s = d")
  case True
  then show ?thesis
    using logs_mono_log(1) [of s "LockAlready d"] by (simp add: updateLockState_def)
next
  case False
  show ?thesis
    using logs_writeThrough [of s d] logs_armAutoLock [of "writeThrough d s"]
    by (auto simp add: updateLockState_writeThrough [OF False])
qed

lemma log_only [simp]:
  "(logDebug m s)\<lparr>logs := l\<rparr> = s\<lparr>logs := l\<rparr>"
  "(logInfo m s)\<lparr>logs := l\<rparr> = s\<lparr>logs := l\<rparr>"
  "(logError m s)\<lparr>logs := l\<rparr> = s\<lparr>logs := l\<rparr>"
  by (simp_all add: logDebug_def logInfo_def logError_def)

lemma find_fresh:
  "timersFresh s \<Longrightarrow> find (\<lambda>t. tid t = nextTimer s) (timers s) = None"
  by (auto simp add: timersFresh_def find_None_iff list_all_iff)

lemma filter_fresh:
  "timersFresh s \<Longrightarrow> filter (\<lambda>t. tid t \<noteq> nextTimer s) (timers s) = timers s"
  by (auto simp add: timersFresh_def list_all_iff filter_id_conv)

lemma fresh_not_pending: "timersFresh s \<Longrightarrow> nextTimer s \<notin> tid ` set (timers s)"
  by (auto simp add: timersFresh_def list_all_iff)

lemma find_append_new:
  "find P xs = None \<Longrightarrow> P x \<Longrightarrow> find P (xs @ [x]) = Some x"
  by (induction xs) (auto split: if_splits)

lemma not_pending:
  "i \<notin> tid ` set ts \<Longrightarrow> find (\<lambda>t. tid t = i) ts = None"
  by (auto simp add: find_None_iff)

lemma timerFires_found:
  "find (\<lambda>t. tid t = i) (timers s) = Some t \<Longrightarrow> \<not> repeating t \<Longrightarrow>
   timerFires i r s
     = runCallback (callback t) r (s\<lparr>timers := filter (\<lambda>t. tid t \<noteq> i) (timers s)\<rparr>)"
  by (simp add: timerFires_def)

section \<open>Construction from the persisted state\<close>

lemma construct_state:
  "isLocked (construct cfg acc t0) = (case context_isLocked acc of None \<Rightarrow> True | Some b \<Rightarrow> b)"
  "targetState (construct cfg acc t0)
     = (case context_targetState acc of None \<Rightarrow> True | Some b \<Rightarrow> b)"
  "context_isLocked (accessory (construct cfg acc t0)) = context_isLocked acc"
  "context_targetState (accessory (construct cfg acc t0)) = context_targetState acc"
  "config (construct cfg acc t0) = cfg"
  by (simp_all add: construct_def Let_def setupAutoLock_def)

lemma construct_hostWrites:
  "hostWrites (construct cfg acc t0)
     = [(LockCurrentState,
         lockValue (case context_isLocked acc of None \<Rightarrow> True | Some b \<Rightarrow> b)),
        (LockTargetState,
         lockValue (case context_targetState acc of None \<Rightarrow> True | Some b \<Rightarrow> b))]"
  apply (simp add: construct_def Let_def setupAutoLock_def)
  apply (simp add: hostWrites_def)
  done

lemma setupMode_actions: "\<exists>rest. actions (setupMode s) = actions s @ rest"
  by (simp add: setupMode_def setupMQTT_def setupCommandLine_def setupDummy_def setTimer_def
        act_def split: option.split)

lemma construct_actions:
  "take 3 (actions (construct cfg acc t0))
     = [SetName (name cfg),
        UpdateCharacteristic LockCurrentState
          (lockValue (case context_isLocked acc of None \<Rightarrow> True | Some b \<Rightarrow> b)),
        UpdateCharacteristic LockTargetState
          (lockValue (case context_targetState acc of None \<Rightarrow> True | Some b \<Rightarrow> b))]"
proof -
  let ?s3 = "act (UpdateCharacteristic LockTargetState
                (lockValue (case context_targetState acc of None \<Rightarrow> True | Some b \<Rightarrow> b)))
             (act (UpdateCharacteristic LockCurrentState
                (lockValue (case context_isLocked acc of None \<Rightarrow> True | Some b \<Rightarrow> b)))
             (act (SetName (name cfg))
               \<lparr>accessory = acc\<lparr>context_instance := True, lockMechanism := True\<rparr>,
                config = cfg,
                isLocked = (case context_isLocked acc of None \<Rightarrow> True | Some b \<Rightarrow> b),
                targetState = (case context_targetState acc of None \<Rightarrow> True | Some b \<Rightarrow> b),
                mqttClient = False, autoLockTimeout = None, monitorIntervalHandle = None,
                lockDelayTimeout = None, unlockDelayTimeout = None, timers = [],
                nextTimer = t0, actions = [], logs = []\<rparr>))"
  obtain rest where "actions (setupMode ?s3) = actions ?s3 @ rest"
    using setupMode_actions [of ?s3] by blast
  then show ?thesis
    by (simp add: construct_def Let_def setupAutoLock_def)
qed

text \<open>
  C8. The constructor takes \<open>isLocked\<close> and \<open>targetState\<close> from the accessory's
  persisted context, each defaulting to secured when it is absent, and writes exactly
  these two values to the host: right after the name, \<open>UNSECURED\<close> (0) for a field that
  is false and \<open>SECURED\<close> (1) for one that is true, first the current and then the target
  characteristic, and no other value, whatever the mode sets up. It leaves the persisted
  context as it found it.
\<close>

theorem construct_reports_persisted_state:
  "let s = construct cfg acc t0;
       il = (case context_isLocked acc of None \<Rightarrow> True | Some b \<Rightarrow> b);
       ts = (case context_targetState acc of None \<Rightarrow> True | Some b \<Rightarrow> b)
   in isLocked s = il \<and> targetState s = ts
    \<and> hostWrites s = [(LockCurrentState, if il then SECURED else UNSECURED),
                      (LockTargetState, if ts then SECURED else UNSECURED)]
    \<and> take 3 (actions s)
        = [SetName (name cfg),
           UpdateCharacteristic LockCurrentState (if il then SECURED else UNSECURED),
           UpdateCharacteristic LockTargetState (if ts then SECURED else UNSECURED)]
    \<and> SECURED = 1 \<and> UNSECURED = 0
    \<and> context_isLocked (accessory s) = context_isLocked acc
    \<and> context_targetState (accessory s) = context_targetState acc"
  by (simp add: Let_def construct_state construct_hostWrites construct_actions lockValue_def
        SECURED_def UNSECURED_def)

text \<open>
  The claim's two cases: a context of \<open>{isLocked: false, targetState: false}\<close> is reported
  as 0 and 0, and a new accessory's missing context as 1 and 1.
\<close>

theorem construct_reports_persisted_state_witness:
  "context_isLocked (unsecuredAccessory ''Garage Lock'' ''uuid-garage'') = Some False
   \<and> context_targetState (unsecuredAccessory ''Garage Lock'' ''uuid-garage'') = Some False
   \<and> \<not> isLocked (construct garage (unsecuredAccessory ''Garage Lock'' ''uuid-garage'') 0)
   \<and> \<not> targetState (construct garage (unsecuredAccessory ''Garage Lock'' ''uuid-garage'') 0)
   \<and> hostWrites (construct garage (unsecuredAccessory ''Garage Lock'' ''uuid-garage'') 0)
       = [(LockCurrentState, 0), (LockTargetState, 0)]
   \<and> context_isLocked (accessoryObject ''Garage Lock'' ''uuid-garage'') = None
   \<and> context_targetState (accessoryObject ''Garage Lock'' ''uuid-garage'') = None
   \<and> isLocked (construct garage (accessoryObject ''Garage Lock'' ''uuid-garage'') 0)
   \<and> targetState (construct garage (accessoryObject ''Garage Lock'' ''uuid-garage'') 0)
   \<and> hostWrites (construct garage (accessoryObject ''Garage Lock'' ''uuid-garage'') 0)
       = [(LockCurrentState, 1), (LockTargetState, 1)]"
proof -
  have u: "context_isLocked (unsecuredAccessory ''Garage Lock'' ''uuid-garage'') = Some False"
    "context_targetState (unsecuredAccessory ''Garage Lock'' ''uuid-garage'') = Some False"
    by (simp_all add: unsecuredAccessory_def accessoryObject_def)
  have n: "context_isLocked (accessoryObject ''Garage Lock'' ''uuid-garage'') = None"
    "context_targetState (accessoryObject ''Garage Lock'' ''uuid-garage'') = None"
    by (simp_all add: accessoryObject_def)
  show ?thesis
    using construct_reports_persisted_state [of garage "unsecuredAccessory ''Garage Lock'' ''uuid-garage''" 0]
      construct_reports_persisted_state [of garage "accessoryObject ''Garage Lock'' ''uuid-garage''" 0]
    by (simp add: Let_def u n)
qed

section \<open>Observations from outside\<close>

lemma executeMonitorCommand_timers:
  "timers (executeMonitorCommand r s) = timers s"
  "autoLockTimeout (executeMonitorCommand r s) = autoLockTimeout s"
  by (simp_all add: executeMonitorCommand_def Let_def updateLockState_noauto_timers
      split: option.split exec_result.split)

lemma onMessage_timers:
  "timers (onMessage topic msg s) = timers s"
  "autoLockTimeout (onMessage topic msg s) = autoLockTimeout s"
  by (simp_all add: onMessage_def updateLockState_noauto_timers split: option.split)

text \<open>
  C5. A message from the bus and a result of the monitor command reach
  \<open>updateLockState\<close> with \<open>triggerAutoLock = False\<close> only, so neither arms the auto-lock
  timer: the pending timers and the auto-lock handle are the same before and after, in
  every mode, for every message and every output of the command.
\<close>

theorem observation_never_arms_auto_lock:
  "timers (onMessage topic msg s) = timers s
   \<and> autoLockTimeout (onMessage topic msg s) = autoLockTimeout s
   \<and> timers (executeMonitorCommand r s) = timers s
   \<and> autoLockTimeout (executeMonitorCommand r s) = autoLockTimeout s"
  by (simp add: executeMonitorCommand_timers onMessage_timers)

section \<open>Current and target state\<close>

lemma consistent_log [simp]:
  "consistent (logDebug m s) = consistent s"
  "consistent (logInfo m s) = consistent s"
  "consistent (logError m s) = consistent s"
  "consistent (act a s) = consistent s"
  "consistent (executeCommand c n r s) = consistent s"
  by (simp_all add: consistent_def)

lemma consistent_update [simp]:
  "consistent (s\<lparr>lockDelayTimeout := h\<rparr>) = consistent s"
  "consistent (s\<lparr>unlockDelayTimeout := h\<rparr>) = consistent s"
  "consistent (s\<lparr>autoLockTimeout := h\<rparr>) = consistent s"
  "consistent (s\<lparr>timers := ts\<rparr>) = consistent s"
  "consistent (s\<lparr>nextTimer := n\<rparr>) = consistent s"
  "consistent (clearTimer h s) = consistent s"
  by (simp_all add: consistent_def)

lemma consistent_setTimer [simp]: "consistent (snd (setTimer cb d rep s)) = consistent s"
  by (simp add: setTimer_def)

lemma consistent_updateLockState: "consistent s \<Longrightarrow> consistent (updateLockState d a s)"
  by (simp add: consistent_def updateLockState_state updateLockState_context)

lemma consistent_setTargetState: "consistent s \<Longrightarrow> consistent (setTargetState v r s)"
  by (simp add: setTargetState_def Let_def consistent_updateLockState split_beta
       split: option.split)

lemma consistent_executeMonitorCommand:
  "consistent s \<Longrightarrow> consistent (executeMonitorCommand r s)"
  by (simp add: executeMonitorCommand_def Let_def consistent_updateLockState
       split: option.split exec_result.split)

lemma consistent_runCallback: "consistent s \<Longrightarrow> consistent (runCallback cb r s)"
  by (simp add: runCallback_def consistent_updateLockState consistent_executeMonitorCommand
       split: callback.split option.split)

lemma consistent_timerFires: "consistent s \<Longrightarrow> consistent (timerFires i r s)"
  by (simp add: timerFires_def consistent_runCallback split: option.split)

lemma consistent_onMessage: "consistent s \<Longrightarrow> consistent (onMessage topic msg s)"
  by (simp add: onMessage_def consistent_updateLockState split: option.split)

lemma consistent_shutdown: "consistent s \<Longrightarrow> consistent (fst (shutdown e s))"
  by (simp add: shutdown_def Let_def split: option.split)

lemma consistent_step: "consistent s \<Longrightarrow> consistent (step s e)"
  by (cases e)
     (simp_all add: consistent_setTargetState consistent_timerFires consistent_onMessage
        consistent_shutdown onConnect_def onSubscribed_def onPublished_def onError_def
        onReconnect_def onEnded_def Let_def split: option.split)

lemma consistent_run: "consistent s \<Longrightarrow> consistent (run s es)"
  unfolding run_def by (induction es arbitrary: s) (simp_all add: consistent_step)

lemma consistent_construct:
  "context_isLocked acc = context_targetState acc \<Longrightarrow> consistent (construct cfg acc t0)"
  by (simp add: consistent_def construct_state)

lemma step_sets_both:
  "(isLocked (step s e) = isLocked s \<and> targetState (step s e) = targetState s)
   \<or> isLocked (step s e) = targetState (step s e)"
  by (cases e)
     (simp_all add: setTargetState_def timerFires_def runCallback_def executeMonitorCommand_def
        onMessage_def shutdown_def onConnect_def onSubscribed_def onPublished_def onError_def
        onReconnect_def onEnded_def Let_def split_beta updateLockState_state setTimer_def
        split: option.split callback.split exec_result.split)

text \<open>
  C10. A controller built from a context whose two fields agree (a new accessory has
  neither, and \<open>updateLockState\<close> persists both together) has \<open>isLocked = targetState\<close>
  after every sequence of events: requests, expiring timers (a pending lock or unlock
  delay included), bus messages, monitor results and shutdown. The persisted context
  agrees as well, so the next start satisfies the premise again.
\<close>

theorem current_equals_target:
  "context_isLocked acc = context_targetState acc \<Longrightarrow>
   isLocked (run (construct cfg acc t0) es) = targetState (run (construct cfg acc t0) es)
   \<and> context_isLocked (accessory (run (construct cfg acc t0) es))
       = context_targetState (accessory (run (construct cfg acc t0) es))"
  using consistent_run [OF consistent_construct, of acc cfg t0 es]
  by (simp add: consistent_def)

theorem current_equals_target_witness:
  "context_isLocked (accessoryObject ''Garage Lock'' ''uuid-garage'')
     = context_targetState (accessoryObject ''Garage Lock'' ''uuid-garage'')
   \<and> isLocked (run (construct slowGarage (accessoryObject ''Garage Lock'' ''uuid-garage'') 0)
        [SetTargetState UNSECURED (ExecOk [] [])])
     = targetState (run (construct slowGarage (accessoryObject ''Garage Lock'' ''uuid-garage'') 0)
        [SetTargetState UNSECURED (ExecOk [] [])])
   \<and> unlockDelayTimeout (run (construct slowGarage (accessoryObject ''Garage Lock'' ''uuid-garage'') 0)
        [SetTargetState UNSECURED (ExecOk [] [])]) = Some 1"
proof -
  have h: "context_isLocked (accessoryObject ''Garage Lock'' ''uuid-garage'')
     = context_targetState (accessoryObject ''Garage Lock'' ''uuid-garage'')"
    by (simp add: accessoryObject_def)
  have t: "unlockDelayTimeout (run (construct slowGarage (accessoryObject ''Garage Lock'' ''uuid-garage'') 0)
        [SetTargetState UNSECURED (ExecOk [] [])]) = Some 1"
    by code_simp
  show ?thesis
    using h t current_equals_target [OF h, of slowGarage 0 "[SetTargetState UNSECURED (ExecOk [] [])]"] by simp
qed

section \<open>A request for the state the lock is in\<close>

lemma request_in_command_mode:
  assumes "isLocked s = (v = SECURED)" and "targetState s = (v = SECURED)"
    and "mode (config s) = ''command''" and "commandSettings (config s) = Some cs"
  shows "if positive (if v = SECURED then lockDelay (config s) else unlockDelay (config s))
         then actions (setTargetState v r s) = actions s
            \<and> length (timers (setTargetState v r s)) = Suc (length (timers s))
         else timers (setTargetState v r s) = timers s
            \<and> actions (setTargetState v r s)
                = actions s @ (if (if v = SECURED then closeCommand cs else openCommand cs) = []
                               then []
                               else [Exec (if v = SECURED then closeCommand cs else openCommand cs)])"
  using assms
  by (simp add: setTargetState_def Let_def split_beta updateLockState_in_place setTimer_def)

text \<open>
  C1, as the code has it. When \<open>isLocked\<close> and \<open>targetState\<close> already are the requested
  value, \<open>setTargetState\<close> changes neither of them, nor the persisted context, nor
  writes to the host, in every mode; outside command mode nothing but the log changes
  (no command, no publication, no timer).
\<close>

theorem repeated_request_keeps_state:
  assumes "isLocked s = (v = SECURED)" and "targetState s = (v = SECURED)"
  shows "let s' = setTargetState v r s
         in isLocked s' = isLocked s \<and> targetState s' = targetState s
          \<and> accessory s' = accessory s \<and> hostWrites s' = hostWrites s
          \<and> (mode (config s) \<noteq> ''command'' \<longrightarrow> s'\<lparr>logs := logs s\<rparr> = s)"
  using assms
  by (simp add: setTargetState_def Let_def split_beta updateLockState_in_place setTimer_def
       hostWrites_def split: option.split)

theorem repeated_request_keeps_state_witness:
  "isLocked dummyLock = (SECURED = SECURED) \<and> targetState dummyLock = (SECURED = SECURED)
   \<and> mode (config dummyLock) \<noteq> ''command''
   \<and> (setTargetState SECURED (ExecOk [] []) dummyLock)\<lparr>logs := logs dummyLock\<rparr> = dummyLock"
proof -
  have h: "isLocked dummyLock = (SECURED = SECURED)" "targetState dummyLock = (SECURED = SECURED)"
    "mode (config dummyLock) \<noteq> ''command''"
    by code_simp+
  show ?thesis
    using h repeated_request_keeps_state [OF h(1,2), of "ExecOk [] []"] by (simp add: Let_def)
qed

text \<open>
  In command mode the same request runs the lock command again, or arms the lock delay
  once more: the garage lock is secured, and securing it executes \<^verbatim>\<open>garage-lock\<close>.
\<close>

theorem repeated_request_runs_command:
  "isLocked garageLock \<and> targetState garageLock
   \<and> actions (setTargetState SECURED (ExecOk [] []) garageLock)
       = actions garageLock @ [Exec ''garage-lock'']
   \<and> isLocked slowGarageLock \<and> targetState slowGarageLock
   \<and> timers (setTargetState SECURED (ExecOk [] []) slowGarageLock)
       = timers slowGarageLock
         @ [\<lparr>tid = 1, callback = LockDelayCb, delayMs = 5000, repeating = False\<rparr>]"
  by code_simp

section \<open>Delayed requests\<close>

lemma request_outside_command_mode:
  "mode (config s) \<noteq> ''command'' \<Longrightarrow>
   setTargetState v r s
     = updateLockState (v = SECURED) (orFalse (autoLock (config s)))
         (logInfo (SettingTargetState (v = SECURED)) s)"
  by (simp add: setTargetState_def Let_def)

lemma setTargetState_delayed_lock:
  "mode (config s) = ''command'' \<Longrightarrow> commandSettings (config s) = Some cs \<Longrightarrow>
   lockDelay (config s) = Some n \<Longrightarrow> 0 < n \<Longrightarrow>
   setTargetState SECURED r s
     = (logDebug (LockingAfter n) (logInfo (SettingTargetState True) s))
         \<lparr>timers := timers s @ [\<lparr>tid = nextTimer s, callback = LockDelayCb,
                      delayMs = n * 1000, repeating = False\<rparr>],
           nextTimer := Suc (nextTimer s), lockDelayTimeout := Some (nextTimer s)\<rparr>"
  by (simp add: setTargetState_def Let_def positive_def setTimer_def)

lemma setTargetState_delayed_unlock:
  "mode (config s) = ''command'' \<Longrightarrow> commandSettings (config s) = Some cs \<Longrightarrow>
   unlockDelay (config s) = Some n \<Longrightarrow> 0 < n \<Longrightarrow> v \<noteq> SECURED \<Longrightarrow>
   setTargetState v r s
     = (logDebug (UnlockingAfter n) (logInfo (SettingTargetState False) s))
         \<lparr>timers := timers s @ [\<lparr>tid = nextTimer s, callback = UnlockDelayCb,
                      delayMs = n * 1000, repeating = False\<rparr>],
           nextTimer := Suc (nextTimer s), unlockDelayTimeout := Some (nextTimer s)\<rparr>"
  by (simp add: setTargetState_def Let_def positive_def setTimer_def)

lemma delay_timer_fires:
  assumes cfg: "mode (config s) = ''command''" "commandSettings (config s) = Some cs"
    and cb: "cb = (if d then LockDelayCb else UnlockDelayCb)"
    and cmd: "cmd = (if d then closeCommand cs else openCommand cs)" "cmd \<noteq> []"
    and differs: "\<not> (d = isLocked s \<and> targetState s = d)"
    and fresh: "timersFresh s"
    and s1: "timers s1 = timers s @ [\<lparr>tid = nextTimer s, callback = cb, delayMs = m,
                 repeating = False\<rparr>]"
       "nextTimer s1 = Suc (nextTimer s)" "config s1 = config s" "isLocked s1 = isLocked s"
       "targetState s1 = targetState s" "actions s1 = actions s"
  shows "isLocked (timerFires (nextTimer s) r s1) = d"
    and "targetState (timerFires (nextTimer s) r s1) = d"
    and "actions (timerFires (nextTimer s) r s1)
           = actions s @ [Exec cmd, UpdateCharacteristic LockTargetState (lockValue d),
                          UpdateCharacteristic LockCurrentState (lockValue d)]"
    and "find (\<lambda>t. tid t = nextTimer s) (timers (timerFires (nextTimer s) r s1)) = None"
proof -
  let ?new = "\<lparr>tid = nextTimer s, callback = cb, delayMs = m, repeating = False\<rparr>"
  let ?s1' = "s1\<lparr>timers := timers s\<rparr>"
  let ?name = "if d then ''closeCommand'' else ''openCommand''"
  let ?x = "executeCommand cmd ?name r ?s1'"
  have "find (\<lambda>t. tid t = nextTimer s) (timers s1) = Some ?new"
    using find_fresh [OF fresh] by (simp add: s1 find_append_new)
  then have "timerFires (nextTimer s) r s1
      = runCallback cb r (s1\<lparr>timers := filter (\<lambda>t. tid t \<noteq> nextTimer s) (timers s1)\<rparr>)"
    using timerFires_found [of "nextTimer s" s1 ?new r] by simp
  also have "filter (\<lambda>t. tid t \<noteq> nextTimer s) (timers s1) = timers s"
    using filter_fresh [OF fresh] by (simp add: s1)
  also have "runCallback cb r ?s1' = updateLockState d (orFalse (autoLock (config s))) ?x"
    using cfg cb cmd by (simp add: runCallback_def s1)
  finally have fires: "timerFires (nextTimer s) r s1
      = updateLockState d (orFalse (autoLock (config s))) ?x" .
  show "isLocked (timerFires (nextTimer s) r s1) = d"
    and "targetState (timerFires (nextTimer s) r s1) = d"
    by (simp_all add: fires updateLockState_state)
  have "\<not> (d = isLocked ?x \<and> targetState ?x = d)" "mode (config ?x) \<noteq> ''mqtt''"
    using differs cfg by (simp_all add: s1)
  then show "actions (timerFires (nextTimer s) r s1)
           = actions s @ [Exec cmd, UpdateCharacteristic LockTargetState (lockValue d),
                          UpdateCharacteristic LockCurrentState (lockValue d)]"
    using cmd by (simp add: fires updateLockState_changes s1)
  have "tid ` set (timers (timerFires (nextTimer s) r s1))
          \<subseteq> insert (Suc (nextTimer s)) (tid ` set (timers s))"
    using updateLockState_tids [of d "orFalse (autoLock (config s))" ?x]
    by (simp add: fires s1)
  then have "nextTimer s \<notin> tid ` set (timers (timerFires (nextTimer s) r s1))"
    using fresh_not_pending [OF fresh] by auto
  then show "find (\<lambda>t. tid t = nextTimer s) (timers (timerFires (nextTimer s) r s1)) = None"
    by (rule not_pending)
qed

text \<open>
  C2, as the code has it. In command mode, with a positive delay for the requested
  direction and a state that differs from it, \<open>setTargetState\<close> only arms the delay
  timer: \<open>isLocked\<close>, \<open>targetState\<close>, the persisted context and the host are as before.
  When that timer expires the direction's command is executed once, both fields become
  the requested value and both characteristics are written; the timer is no longer
  pending.
\<close>

theorem delayed_request_in_command_mode:
  assumes cfg: "mode (config s) = ''command''" "commandSettings (config s) = Some cs"
    and delay: "(if d then lockDelay (config s) else unlockDelay (config s)) = Some n" "0 < n"
    and cmd: "cmd = (if d then closeCommand cs else openCommand cs)" "cmd \<noteq> []"
    and differs: "\<not> (isLocked s = d \<and> targetState s = d)"
    and fresh: "timersFresh s"
  shows "let s1 = setTargetState (lockValue d) r0 s;
             s2 = timerFires (nextTimer s) r s1
         in isLocked s1 = isLocked s \<and> targetState s1 = targetState s
          \<and> actions s1 = actions s \<and> accessory s1 = accessory s
          \<and> timers s1 = timers s @ [\<lparr>tid = nextTimer s,
                 callback = (if d then LockDelayCb else UnlockDelayCb),
                 delayMs = n * 1000, repeating = False\<rparr>]
          \<and> isLocked s2 = d \<and> targetState s2 = d
          \<and> actions s2 = actions s @ [Exec cmd,
                 UpdateCharacteristic LockTargetState (lockValue d),
                 UpdateCharacteristic LockCurrentState (lockValue d)]
          \<and> find (\<lambda>t. tid t = nextTimer s) (timers s2) = None"
proof -
  define cb where "cb = (if d then LockDelayCb else UnlockDelayCb)"
  define s1 where "s1 = setTargetState (lockValue d) r0 s"
  have "timers s1 = timers s @ [\<lparr>tid = nextTimer s, callback = cb, delayMs = n * 1000,
                 repeating = False\<rparr>]
       \<and> nextTimer s1 = Suc (nextTimer s) \<and> config s1 = config s \<and> isLocked s1 = isLocked s
       \<and> targetState s1 = targetState s \<and> actions s1 = actions s \<and> accessory s1 = accessory s"
  proof (cases d)
    case True
    then have "s1 = (logDebug (LockingAfter n) (logInfo (SettingTargetState True) s))
         \<lparr>timers := timers s @ [\<lparr>tid = nextTimer s, callback = LockDelayCb,
                      delayMs = n * 1000, repeating = False\<rparr>],
           nextTimer := Suc (nextTimer s), lockDelayTimeout := Some (nextTimer s)\<rparr>"
      using setTargetState_delayed_lock [OF cfg, of n r0] delay
      by (simp add: s1_def lockValue_def)
    then show ?thesis
      using True by (simp add: cb_def)
  next
    case False
    then have "s1 = (logDebug (UnlockingAfter n) (logInfo (SettingTargetState False) s))
         \<lparr>timers := timers s @ [\<lparr>tid = nextTimer s, callback = UnlockDelayCb,
                      delayMs = n * 1000, repeating = False\<rparr>],
           nextTimer := Suc (nextTimer s), unlockDelayTimeout := Some (nextTimer s)\<rparr>"
      using setTargetState_delayed_unlock [OF cfg, of n UNSECURED r0] delay
      by (simp add: s1_def lockValue_def SECURED_def UNSECURED_def)
    then show ?thesis
      using False by (simp add: cb_def)
  qed
  then have s1: "timers s1 = timers s @ [\<lparr>tid = nextTimer s, callback = cb, delayMs = n * 1000,
                 repeating = False\<rparr>]"
       "nextTimer s1 = Suc (nextTimer s)" "config s1 = config s" "isLocked s1 = isLocked s"
       "targetState s1 = targetState s" "actions s1 = actions s" "accessory s1 = accessory s"
    by simp_all
  have differs': "\<not> (d = isLocked s \<and> targetState s = d)"
    using differs by auto
  note fires = delay_timer_fires [OF cfg cb_def cmd differs' fresh s1(1-6), of r]
  show ?thesis
    unfolding Let_def s1_def [symmetric]
    using s1 fires by (simp add: cb_def)
qed

theorem delayed_request_in_command_mode_witness:
  "mode (config slowGarageUnsecured) = ''command''
   \<and> commandSettings (config slowGarageUnsecured) = commandSettings garage
   \<and> lockDelay (config slowGarageUnsecured) = Some 5
   \<and> \<not> (isLocked slowGarageUnsecured = True \<and> targetState slowGarageUnsecured = True)
   \<and> timersFresh slowGarageUnsecured
   \<and> \<not> isLocked (setTargetState SECURED (ExecErr ''x'') slowGarageUnsecured)
   \<and> isLocked (timerFires 1 (ExecOk [] []) (setTargetState SECURED (ExecErr ''x'') slowGarageUnsecured))
   \<and> actions (timerFires 1 (ExecOk [] []) (setTargetState SECURED (ExecErr ''x'') slowGarageUnsecured))
       = actions slowGarageUnsecured @ [Exec ''garage-lock'',
            UpdateCharacteristic LockTargetState SECURED,
            UpdateCharacteristic LockCurrentState SECURED]"
proof -
  let ?cs = "\<lparr>openCommand = ''garage-unlock'', closeCommand = ''garage-lock'',
         monitorCommand = ''garage-state'', monitorInterval = 60\<rparr>"
  have h: "mode (config slowGarageUnsecured) = ''command''"
    "commandSettings (config slowGarageUnsecured) = Some ?cs"
    "(if True then lockDelay (config slowGarageUnsecured)
      else unlockDelay (config slowGarageUnsecured)) = Some 5"
    "(0::int) < 5"
    "''garage-lock'' = (if True then closeCommand ?cs else openCommand ?cs)"
    "''garage-lock'' \<noteq> []"
    "\<not> (isLocked slowGarageUnsecured = True \<and> targetState slowGarageUnsecured = True)"
    "timersFresh slowGarageUnsecured"
    by code_simp+
  have n: "nextTimer slowGarageUnsecured = 1" by code_simp
  have g: "commandSettings garage = Some ?cs" by code_simp
  have u: "\<not> isLocked slowGarageUnsecured" by code_simp
  show ?thesis
    using h g u delayed_request_in_command_mode [OF h, of "ExecErr ''x''" "ExecOk [] []"]
    by (simp add: Let_def n lockValue_def)
qed

text \<open>
  The target state is not set while the delay runs (command mode), and outside command
  mode the delay is not consulted: the current state changes at once.
\<close>

theorem delayed_request_target_not_echoed:
  "\<not> isLocked slowGarageUnsecured \<and> \<not> targetState slowGarageUnsecured
   \<and> \<not> targetState (setTargetState SECURED (ExecOk [] []) slowGarageUnsecured)
   \<and> hostWrites (setTargetState SECURED (ExecOk [] []) slowGarageUnsecured)
       = hostWrites slowGarageUnsecured
   \<and> \<not> isLocked slowDummyUnsecured
   \<and> isLocked (setTargetState SECURED (ExecOk [] []) slowDummyUnsecured)
   \<and> timers (setTargetState SECURED (ExecOk [] []) slowDummyUnsecured) = []"
  by code_simp

section \<open>Failing commands\<close>

lemma executeCommand_failed_logs:
  "c \<noteq> [] \<Longrightarrow>
   orElseS (logging (config s)) ''normal'' \<in> set [''debug'', ''normal'', ''minimal''] \<Longrightarrow>
   (Error, CommandFailed n m) \<in> set (logs (executeCommand c n (ExecErr m) s))"
  by (simp add: executeCommand_def Let_def logError_def act_def)

text \<open>
  C6. In command mode, when the lock or unlock command of a requested transition
  fails, after the delay or at once, the controller still sets \<open>isLocked\<close> and
  \<open>targetState\<close> to the requested value, writes both characteristics to the host and
  persists them; the failure is a line of the error log and nothing else.
\<close>

theorem failed_command_still_transitions:
  assumes cfg: "mode (config s) = ''command''" "commandSettings (config s) = Some cs"
    and differs: "\<not> (isLocked s = d \<and> targetState s = d)"
    and cmd: "cmd = (if d then closeCommand cs else openCommand cs)" "cmd \<noteq> []"
    and s': "s' = runCallback (if d then LockDelayCb else UnlockDelayCb) (ExecErr m) s
        \<or> (\<not> positive (if d then lockDelay (config s) else unlockDelay (config s))
            \<and> s' = setTargetState (lockValue d) (ExecErr m) s)"
  shows "isLocked s' = d \<and> targetState s' = d
       \<and> hostWrites s' =
           hostWrites s @ [(LockTargetState, lockValue d), (LockCurrentState, lockValue d)]
       \<and> context_isLocked (accessory s') = Some d
       \<and> context_targetState (accessory s') = Some d
       \<and> (orElseS (logging (config s)) ''normal'' \<in> set [''debug'', ''normal'', ''minimal'']
            \<longrightarrow> (Error, CommandFailed (if d then ''closeCommand'' else ''openCommand'') m)
                  \<in> set (logs s'))"
proof -
  let ?name = "if d then ''closeCommand'' else ''openCommand''"
  let ?s0 = "logInfo (SettingTargetState d) s"
  have "\<exists>x. (x = s \<or> x = ?s0)
      \<and> s' = updateLockState d (orFalse (autoLock (config s))) (executeCommand cmd ?name (ExecErr m) x)"
    using s'
  proof
    assume "s' = runCallback (if d then LockDelayCb else UnlockDelayCb) (ExecErr m) s"
    then show ?thesis using cfg cmd by (auto simp add: runCallback_def)
  next
    assume "\<not> positive (if d then lockDelay (config s) else unlockDelay (config s))
            \<and> s' = setTargetState (lockValue d) (ExecErr m) s"
    then show ?thesis using cfg cmd
      by (auto simp add: setTargetState_def Let_def lockValue_def SECURED_def UNSECURED_def)
  qed
  then obtain x where x: "x = s \<or> x = ?s0"
    and eq: "s' = updateLockState d (orFalse (autoLock (config s)))
                    (executeCommand cmd ?name (ExecErr m) x)"
    by blast
  let ?e = "executeCommand cmd ?name (ExecErr m) x"
  have same: "isLocked ?e = isLocked s" "targetState ?e = targetState s" "config ?e = config s"
    "hostWrites ?e = hostWrites s"
    using x by auto
  then have differs': "\<not> (d = isLocked ?e \<and> targetState ?e = d)"
    using differs by auto
  have logged: "orElseS (logging (config s)) ''normal'' \<in> set [''debug'', ''normal'', ''minimal'']
      \<Longrightarrow> (Error, CommandFailed ?name m) \<in> set (logs s')"
  proof -
    assume "orElseS (logging (config s)) ''normal'' \<in> set [''debug'', ''normal'', ''minimal'']"
    then have "orElseS (logging (config x)) ''normal'' \<in> set [''debug'', ''normal'', ''minimal'']"
      using x by auto
    from executeCommand_failed_logs [OF cmd(2) this, of ?name m]
    show ?thesis
      using logs_updateLockState [of ?e d "orFalse (autoLock (config s))"]
      unfolding eq by blast
  qed
  have hx: "hostWrites x = hostWrites s"
    using x by auto
  show ?thesis
    using hostWrites_updateLockState [OF differs'] context_updateLockState [OF differs'] logged
    by (simp add: eq updateLockState_state same hx)
qed

theorem failed_command_still_transitions_witness:
  "mode (config garageLock) = ''command''
   \<and> commandSettings (config garageLock) = commandSettings garage
   \<and> \<not> (isLocked garageLock = False \<and> targetState garageLock = False)
   \<and> \<not> positive (unlockDelay (config garageLock))
   \<and> \<not> isLocked (setTargetState UNSECURED (ExecErr ''exit 1'') garageLock)
   \<and> \<not> targetState (setTargetState UNSECURED (ExecErr ''exit 1'') garageLock)
   \<and> hostWrites (setTargetState UNSECURED (ExecErr ''exit 1'') garageLock)
       = hostWrites garageLock @ [(LockTargetState, UNSECURED), (LockCurrentState, UNSECURED)]
   \<and> (Error, CommandFailed ''openCommand'' ''exit 1'')
       \<in> set (logs (setTargetState UNSECURED (ExecErr ''exit 1'') garageLock))"
proof -
  let ?cs = "\<lparr>openCommand = ''garage-unlock'', closeCommand = ''garage-lock'',
         monitorCommand = ''garage-state'', monitorInterval = 60\<rparr>"
  let ?s' = "setTargetState UNSECURED (ExecErr ''exit 1'') garageLock"
  have h: "mode (config garageLock) = ''command''"
    "commandSettings (config garageLock) = Some ?cs"
    "\<not> (isLocked garageLock = False \<and> targetState garageLock = False)"
    "''garage-unlock'' = (if False then closeCommand ?cs else openCommand ?cs)"
    "''garage-unlock'' \<noteq> []"
    by code_simp+
  have p: "\<not> positive (unlockDelay (config garageLock))" by code_simp
  have g: "commandSettings garage = Some ?cs" by code_simp
  have l: "orElseS (logging (config garageLock)) ''normal'' \<in> set [''debug'', ''normal'', ''minimal'']"
    by code_simp
  have s': "?s' = runCallback (if False then LockDelayCb else UnlockDelayCb) (ExecErr ''exit 1'') garageLock
        \<or> (\<not> positive (if False then lockDelay (config garageLock) else unlockDelay (config garageLock))
            \<and> ?s' = setTargetState (lockValue False) (ExecErr ''exit 1'') garageLock)"
    using p by (simp add: lockValue_def)
  show ?thesis
    using h g p l failed_command_still_transitions [OF h s']
    by (simp add: lockValue_def)
qed

section \<open>Auto-lock\<close>

lemma find_filter_None: "find P xs = None \<Longrightarrow> find P (filter Q xs) = None"
  by (auto simp add: find_None_iff)

lemma filter_filter_fresh:
  "timersFresh s \<Longrightarrow>
   filter (\<lambda>t. tid t \<noteq> nextTimer s) (filter Q (timers s)) = filter Q (timers s)"
  by (rule filter_cong [OF refl, THEN trans [OF filter_filter]])
     (auto simp add: timersFresh_def list_all_iff)

lemma writeThrough_state [simp]:
  "isLocked (writeThrough d s) = d" "targetState (writeThrough d s) = d"
  "mqttClient (writeThrough d s) = mqttClient s"
  by (simp_all add: writeThrough_def)

lemma actions_publishState:
  "mode (config s) = ''mqtt'' \<Longrightarrow> mqttClient s \<Longrightarrow> mqttSettings (config s) = Some ms \<Longrightarrow>
   mqttTopicPublish ms \<noteq> [] \<Longrightarrow>
   actions (publishState d s)
     = actions s @ [MqttPublish (mqttTopicPublish ms)
         (if d then orElseS (Some (mqttPublishCloseMessage ms)) ''closed''
          else orElseS (Some (mqttPublishOpenMessage ms)) ''opened'')]"
  by (simp add: publishState_def)

lemma actions_writeThrough_mqtt:
  "mode (config s) = ''mqtt'' \<Longrightarrow> mqttClient s \<Longrightarrow> mqttSettings (config s) = Some ms \<Longrightarrow>
   mqttTopicPublish ms \<noteq> [] \<Longrightarrow>
   actions (writeThrough d s)
     = actions s @ [UpdateCharacteristic LockTargetState (lockValue d),
                    UpdateCharacteristic LockCurrentState (lockValue d),
                    MqttPublish (mqttTopicPublish ms)
                      (if d then orElseS (Some (mqttPublishCloseMessage ms)) ''closed''
                       else orElseS (Some (mqttPublishOpenMessage ms)) ''opened'')]"
  by (simp add: writeThrough_def actions_publishState)

text \<open>
  C4, as the code has it. With auto-lock enabled, \<open>updateLockState False True\<close> on a lock
  that is not already unsecured cancels the timer the auto-lock handle refers to and arms
  a new one of \<open>(autoLockDelay || 30)\<close> seconds. When that timer expires the controller
  runs \<open>updateLockState True False\<close>: both fields become secured, both characteristics are
  written, the timer is gone, and in MQTT mode with a client the close message is
  published.
\<close>

theorem auto_lock_rearmed_and_fires:
  assumes auto: "orFalse (autoLock (config s))"
    and differs: "isLocked s \<or> targetState s"
    and fresh: "timersFresh s"
  shows "let s1 = updateLockState False True s;
             s2 = timerFires (nextTimer s) r s1
         in autoLockTimeout s1 = Some (nextTimer s)
          \<and> timers s1 = filter (\<lambda>t. Some (tid t) \<noteq> autoLockTimeout s) (timers s)
               @ [\<lparr>tid = nextTimer s, callback = AutoLockCb,
                   delayMs = orElse (autoLockDelay (config s)) 30 * 1000, repeating = False\<rparr>]
          \<and> \<not> isLocked s1 \<and> \<not> targetState s1
          \<and> isLocked s2 \<and> targetState s2
          \<and> hostWrites s2
               = hostWrites s1 @ [(LockTargetState, SECURED), (LockCurrentState, SECURED)]
          \<and> timers s2 = filter (\<lambda>t. Some (tid t) \<noteq> autoLockTimeout s) (timers s)
          \<and> (\<forall>ms. mode (config s) = ''mqtt'' \<and> mqttClient s \<and> mqttSettings (config s) = Some ms
                 \<and> mqttTopicPublish ms \<noteq> [] \<longrightarrow>
               actions s2 = actions s1
                 @ [UpdateCharacteristic LockTargetState SECURED,
                    UpdateCharacteristic LockCurrentState SECURED,
                    MqttPublish (mqttTopicPublish ms)
                      (orElseS (Some (mqttPublishCloseMessage ms)) ''closed'')])"
proof -
  define s1 where "s1 = updateLockState False True s"
  let ?new = "\<lparr>tid = nextTimer s, callback = AutoLockCb,
                delayMs = orElse (autoLockDelay (config s)) 30 * 1000, repeating = False\<rparr>"
  let ?old = "filter (\<lambda>t. Some (tid t) \<noteq> autoLockTimeout s) (timers s)"
  have differs': "\<not> (False = isLocked s \<and> targetState s = False)"
    using differs by auto
  have s1: "s1 = armAutoLock (writeThrough False s)"
    using auto by (simp add: s1_def updateLockState_writeThrough [OF differs'])
  have t1: "timers s1 = ?old @ [?new]" "autoLockTimeout s1 = Some (nextTimer s)"
    "nextTimer s1 = Suc (nextTimer s)"
    by (simp_all add: s1 armAutoLock_timers)
  have st1: "\<not> isLocked s1" "\<not> targetState s1" "config s1 = config s"
    "mqttClient s1 = mqttClient s"
    by (simp_all add: s1)
  let ?s1' = "s1\<lparr>timers := ?old\<rparr>"
  have "find (\<lambda>t. tid t = nextTimer s) ?old = None"
    using find_fresh [OF fresh] by (rule find_filter_None)
  then have "find (\<lambda>t. tid t = nextTimer s) (timers s1) = Some ?new"
    by (simp add: t1 find_append_new)
  then have "timerFires (nextTimer s) r s1
      = runCallback AutoLockCb r (s1\<lparr>timers := filter (\<lambda>t. tid t \<noteq> nextTimer s) (timers s1)\<rparr>)"
    using timerFires_found [of "nextTimer s" s1 ?new r] by simp
  also have "filter (\<lambda>t. tid t \<noteq> nextTimer s) (timers s1) = ?old"
    using filter_filter_fresh [OF fresh] by (simp add: t1)
  also have "runCallback AutoLockCb r ?s1' = updateLockState True False ?s1'"
    by (simp add: runCallback_def)
  also have "\<dots> = writeThrough True ?s1'"
    using st1 by (simp add: updateLockState_writeThrough)
  finally have s2: "timerFires (nextTimer s) r s1 = writeThrough True ?s1'" .
  have hw: "hostWrites ?s1' = hostWrites s1"
    by (simp add: hostWrites_def)
  have pub: "actions (timerFires (nextTimer s) r s1) = actions s1
                 @ [UpdateCharacteristic LockTargetState SECURED,
                    UpdateCharacteristic LockCurrentState SECURED,
                    MqttPublish (mqttTopicPublish ms)
                      (orElseS (Some (mqttPublishCloseMessage ms)) ''closed'')]"
    if "mode (config s) = ''mqtt''" "mqttClient s" "mqttSettings (config s) = Some ms"
      "mqttTopicPublish ms \<noteq> []" for ms
    using that actions_writeThrough_mqtt [of ?s1' ms True]
    by (simp add: s2 st1 lockValue_def)
  show ?thesis
    unfolding Let_def s1_def [symmetric]
    using pub by (simp add: t1 st1 s2 hw lockValue_def)
qed

theorem auto_lock_rearmed_and_fires_witness:
  "orFalse (autoLock (config autoDummyLock))
   \<and> (isLocked autoDummyLock \<or> targetState autoDummyLock)
   \<and> timersFresh autoDummyLock
   \<and> autoLockTimeout (updateLockState False True autoDummyLock) = Some 0
   \<and> timers (updateLockState False True autoDummyLock)
       = [\<lparr>tid = 0, callback = AutoLockCb, delayMs = 10000, repeating = False\<rparr>]
   \<and> isLocked (timerFires 0 (ExecOk [] []) (updateLockState False True autoDummyLock))
   \<and> timers (timerFires 0 (ExecOk [] []) (updateLockState False True autoDummyLock)) = []"
proof -
  have h: "orFalse (autoLock (config autoDummyLock))"
    "isLocked autoDummyLock \<or> targetState autoDummyLock"
    "timersFresh autoDummyLock"
    by code_simp+
  have n: "nextTimer autoDummyLock = 0" "timers autoDummyLock = []"
    "orElse (autoLockDelay (config autoDummyLock)) 30 = 10"
    by code_simp+
  show ?thesis
    using h auto_lock_rearmed_and_fires [OF h, of "ExecOk [] []"] by (simp add: Let_def n)
qed

text \<open>
  On a lock that is unsecured already the call returns before the auto-lock test: no
  timer is armed, neither by \<open>updateLockState\<close> nor by a user's unlock request.
\<close>

theorem auto_lock_not_armed_when_unsecured:
  "orFalse (autoLock (config autoDummyUnsecured))
   \<and> \<not> isLocked autoDummyUnsecured \<and> \<not> targetState autoDummyUnsecured
   \<and> timers autoDummyUnsecured = []
   \<and> autoLockTimeout (updateLockState False True autoDummyUnsecured) = None
   \<and> timers (updateLockState False True autoDummyUnsecured) = []
   \<and> timers (setTargetState UNSECURED (ExecOk [] []) autoDummyUnsecured) = []"
  by code_simp

section \<open>Pending timers\<close>

text \<open>
  In every state the TypeScript accessory can reach, the identifiers of the pending timers
  are fresh and distinct, and at most one auto-lock timer is pending: re-arming cancels
  the one before.
\<close>

lemma timersOwned_log [simp]:
  "timersOwned (logDebug m s) = timersOwned s"
  "timersOwned (logInfo m s) = timersOwned s"
  "timersOwned (logError m s) = timersOwned s"
  "timersOwned (act a s) = timersOwned s"
  "timersOwned (executeCommand c n r s) = timersOwned s"
  "timersOwned (publishState d s) = timersOwned s"
  by (simp_all add: timersOwned_def timersFresh_def)

lemma timersOwned_writeThrough [simp]: "timersOwned (writeThrough d s) = timersOwned s"
  by (simp add: timersOwned_def timersFresh_def)

lemma timersOwned_other_timer:
  "timersOwned s \<Longrightarrow> cb \<noteq> AutoLockCb \<Longrightarrow>
   timersOwned (s\<lparr>timers := timers s @ [\<lparr>tid = nextTimer s, callback = cb, delayMs = d,
                     repeating = rep\<rparr>], nextTimer := Suc (nextTimer s)\<rparr>)"
  by (auto simp add: timersOwned_def timersFresh_def list_all_iff)

lemma timersOwned_handle [simp]:
  "timersOwned (s\<lparr>lockDelayTimeout := h\<rparr>) = timersOwned s"
  "timersOwned (s\<lparr>unlockDelayTimeout := h\<rparr>) = timersOwned s"
  "timersOwned (s\<lparr>monitorIntervalHandle := h\<rparr>) = timersOwned s"
  "timersOwned (s\<lparr>mqttClient := b\<rparr>) = timersOwned s"
  by (simp_all add: timersOwned_def timersFresh_def)

lemma timersOwned_remove:
  "timersOwned s \<Longrightarrow> timersOwned (s\<lparr>timers := filter P (timers s)\<rparr>)"
  by (auto simp add: timersOwned_def timersFresh_def list_all_iff distinct_map_filter)

lemma timersOwned_clearTimer: "timersOwned s \<Longrightarrow> timersOwned (clearTimer h s)"
  by (cases h) (simp_all add: clearTimer_def timersOwned_remove)

lemma timersOwned_armAutoLock: "timersOwned s \<Longrightarrow> timersOwned (armAutoLock s)"
  by (auto simp add: timersOwned_def timersFresh_def list_all_iff armAutoLock_timers
        distinct_map_filter)

lemma timersOwned_updateLockState: "timersOwned s \<Longrightarrow> timersOwned (updateLockState d a s)"
  by (cases "d = isLocked s \<and> targetState s = d")
     (simp_all add: updateLockState_in_place updateLockState_writeThrough timersOwned_armAutoLock)

lemma timersOwned_setTargetState: "timersOwned s \<Longrightarrow> timersOwned (setTargetState v r s)"
  using timersOwned_other_timer [of "logDebug (LockingAfter (the (lockDelay (config s))))
      (logInfo (SettingTargetState True) s)" LockDelayCb]
    timersOwned_other_timer [of "logDebug (UnlockingAfter (the (unlockDelay (config s))))
      (logInfo (SettingTargetState False) s)" UnlockDelayCb]
  by (simp add: setTargetState_def Let_def setTimer_def timersOwned_updateLockState
        split: option.split)

lemma timersOwned_executeMonitorCommand:
  "timersOwned s \<Longrightarrow> timersOwned (executeMonitorCommand r s)"
  by (simp add: executeMonitorCommand_def Let_def timersOwned_updateLockState
        split: option.split exec_result.split)

lemma timersOwned_runCallback: "timersOwned s \<Longrightarrow> timersOwned (runCallback cb r s)"
  by (simp add: runCallback_def timersOwned_updateLockState timersOwned_executeMonitorCommand
        split: callback.split option.split)

lemma timersOwned_timerFires: "timersOwned s \<Longrightarrow> timersOwned (timerFires i r s)"
  by (simp add: timerFires_def timersOwned_runCallback timersOwned_remove split: option.split)

lemma timersOwned_onMessage: "timersOwned s \<Longrightarrow> timersOwned (onMessage topic msg s)"
  by (simp add: onMessage_def timersOwned_updateLockState split: option.split)

lemma timersOwned_shutdown: "timersOwned s \<Longrightarrow> timersOwned (fst (shutdown e s))"
  by (simp add: shutdown_def Let_def timersOwned_clearTimer split: option.split)

lemma timersOwned_step: "timersOwned s \<Longrightarrow> timersOwned (step s e)"
  by (cases e)
     (simp_all add: timersOwned_setTargetState timersOwned_timerFires timersOwned_onMessage
        timersOwned_shutdown onConnect_def onSubscribed_def onPublished_def onError_def
        onReconnect_def onEnded_def Let_def split: option.split)

lemma timersOwned_run: "timersOwned s \<Longrightarrow> timersOwned (run s es)"
  unfolding run_def by (induction es arbitrary: s) (simp_all add: timersOwned_step)

lemma timersOwned_construct: "timersOwned (construct cfg acc t0)"
proof -
  have base: "timersOwned s" if "timers s = []" for s
    using that by (simp add: timersOwned_def timersFresh_def)
  have mode: "timersOwned (setupMode s)" if "timers s = []" for s
    using base [OF that] timersOwned_other_timer [OF base [OF that], of MonitorCb]
    by (simp add: setupMode_def setupMQTT_def setupCommandLine_def setupDummy_def setTimer_def
          that split: option.split)
  show ?thesis
    by (simp add: construct_def Let_def setupAutoLock_def mode)
qed

lemma at_most_one_auto_lock_timer:
  "length (filter (\<lambda>t. callback t = AutoLockCb) (timers (run (construct cfg acc t0) es))) \<le> 1"
proof -
  define s where "s = run (construct cfg acc t0) es"
  have o: "timersOwned s"
    unfolding s_def by (rule timersOwned_run [OF timersOwned_construct])
  have "length (filter P ts) \<le> 1" if "distinct (map tid ts)" "\<forall>t\<in>set ts. P t \<longrightarrow> tid t = i"
    for ts :: "timer list" and P i
    using that
  proof (induction ts)
    case Nil
    show ?case by simp
  next
    case (Cons t ts)
    show ?case
    proof (cases "P t")
      case True
      then have i: "tid t = i" using Cons.prems by simp
      have "\<not> P x" if "x \<in> set ts" for x
      proof
        assume "P x"
        then have "tid x = tid t" using Cons.prems that i by simp
        then have "tid t \<in> tid ` set ts" using that by (metis imageI)
        then show False using Cons.prems by simp
      qed
      then have "\<forall>x\<in>set ts. \<not> P x" by blast
      then have "filter P ts = []" by (simp add: filter_empty_conv)
      with True show ?thesis by simp
    next
      case False
      with Cons show ?thesis by simp
    qed
  qed
  from this [of "timers s" "\<lambda>t. callback t = AutoLockCb" "the (autoLockTimeout s)"] o
  show ?thesis
    unfolding s_def [symmetric] by (auto simp add: timersOwned_def list_all_iff)
qed

lemma timersFresh_run: "timersFresh (run (construct cfg acc t0) es)"
  using timersOwned_run [OF timersOwned_construct, of cfg acc t0 es]
  by (simp add: timersOwned_def)

section \<open>Timers of the earlier JavaScript accessory\<close>

text \<open>
  The earlier accessory clears both delay timers before it arms one, and its \<open>cleanup\<close>
  clears every handle. In every state it can reach each pending timer is the one its
  handle refers to; so at most one delay timer is pending, \<open>cleanup\<close> leaves no timer
  behind, does not throw, and can be repeated.
\<close>

lemma actL_fields [simp]:
  "settings (actL a s) = settings s" "currentState (actL a s) = currentState s"
  "targetStateL (actL a s) = targetStateL s" "pollIntervalObj (actL a s) = pollIntervalObj s"
  "autoLockTimeoutL (actL a s) = autoLockTimeoutL s"
  "lockDelayTimeoutL (actL a s) = lockDelayTimeoutL s"
  "unlockDelayTimeoutL (actL a s) = unlockDelayTimeoutL s"
  "mqttClientL (actL a s) = mqttClientL s" "timersL (actL a s) = timersL s"
  "nextTimerL (actL a s) = nextTimerL s" "actionsL (actL a s) = actionsL s @ [a]"
  by (simp_all add: actL_def)

lemma cancelL_fields [simp]:
  "settings (cancelL h s) = settings s" "currentState (cancelL h s) = currentState s"
  "targetStateL (cancelL h s) = targetStateL s" "pollIntervalObj (cancelL h s) = pollIntervalObj s"
  "autoLockTimeoutL (cancelL h s) = autoLockTimeoutL s"
  "lockDelayTimeoutL (cancelL h s) = lockDelayTimeoutL s"
  "unlockDelayTimeoutL (cancelL h s) = unlockDelayTimeoutL s"
  "mqttClientL (cancelL h s) = mqttClientL s"
  "nextTimerL (cancelL h s) = nextTimerL s" "actionsL (cancelL h s) = actionsL s"
  "timersL (cancelL h s) = filter (\<lambda>t. Some (tid t) \<noteq> h) (timersL s)"
  by (cases h; simp add: cancelL_def)+

lemma updateHomeKitStates_fields [simp]:
  "settings (updateHomeKitStates s) = settings s"
  "currentState (updateHomeKitStates s) = currentState s"
  "targetStateL (updateHomeKitStates s) = targetStateL s"
  "pollIntervalObj (updateHomeKitStates s) = pollIntervalObj s"
  "autoLockTimeoutL (updateHomeKitStates s) = autoLockTimeoutL s"
  "lockDelayTimeoutL (updateHomeKitStates s) = lockDelayTimeoutL s"
  "unlockDelayTimeoutL (updateHomeKitStates s) = unlockDelayTimeoutL s"
  "mqttClientL (updateHomeKitStates s) = mqttClientL s"
  "timersL (updateHomeKitStates s) = timersL s"
  "nextTimerL (updateHomeKitStates s) = nextTimerL s"
  by (simp_all add: updateHomeKitStates_def)

lemma ownedL_cong:
  "timersL s' = timersL s \<Longrightarrow> nextTimerL s' = nextTimerL s \<Longrightarrow>
   pollIntervalObj s' = pollIntervalObj s \<Longrightarrow> autoLockTimeoutL s' = autoLockTimeoutL s \<Longrightarrow>
   lockDelayTimeoutL s' = lockDelayTimeoutL s \<Longrightarrow>
   unlockDelayTimeoutL s' = unlockDelayTimeoutL s \<Longrightarrow> ownedL s' = ownedL s"
  by (simp add: ownedL_def handleOf_def cong: callback.case_cong)

lemma cleanup_result:
  "snd (cleanup e s) = False"
  "pollIntervalObj (fst (cleanup e s)) = None"
  "autoLockTimeoutL (fst (cleanup e s)) = None"
  "lockDelayTimeoutL (fst (cleanup e s)) = None"
  "unlockDelayTimeoutL (fst (cleanup e s)) = None"
  "mqttClientL (fst (cleanup e s)) = False"
  "nextTimerL (fst (cleanup e s)) = nextTimerL s"
  "settings (fst (cleanup e s)) = settings s"
  by (simp_all add: cleanup_def Let_def)

lemma cleanup_timers:
  "timersL (fst (cleanup e s))
     = filter (\<lambda>t. Some (tid t) \<noteq> pollIntervalObj s \<and> Some (tid t) \<noteq> autoLockTimeoutL s
                 \<and> Some (tid t) \<noteq> lockDelayTimeoutL s \<and> Some (tid t) \<noteq> unlockDelayTimeoutL s)
         (timersL s)"
  by (simp add: cleanup_def Let_def conj_commute conj_left_commute)

lemma cleanup_no_timers: "ownedL s \<Longrightarrow> timersL (fst (cleanup e s)) = []"
proof -
  assume o: "ownedL s"
  have "Some (tid t) = pollIntervalObj s \<or> Some (tid t) = autoLockTimeoutL s
      \<or> Some (tid t) = lockDelayTimeoutL s \<or> Some (tid t) = unlockDelayTimeoutL s"
    if "t \<in> set (timersL s)" for t
    using o that by (cases "callback t") (auto simp add: ownedL_def list_all_iff handleOf_def)
  then show ?thesis
    by (auto simp add: cleanup_timers filter_empty_conv)
qed

lemma cleanup_twice: "fst (cleanup e2 (fst (cleanup e1 s))) = fst (cleanup e1 s)"
proof -
  let ?c = "fst (cleanup e1 s)"
  have "cleanup e2 ?c = (?c, False)"
    by (simp add: cleanup_def [of e2] Let_def cleanup_result cancelL_def)
  then show ?thesis by simp
qed

lemma ownedL_empty: "timersL s = [] \<Longrightarrow> ownedL s"
  by (simp add: ownedL_def)

lemma ownedL_cleanup: "ownedL s \<Longrightarrow> ownedL (fst (cleanup e s))"
  by (simp add: ownedL_empty cleanup_no_timers)

lemma length_filter_filter: "length (filter P (filter Q xs)) \<le> length (filter P xs)"
  by (induction xs) auto

lemma ownedL_filter:
  assumes "ownedL s"
    and "timersL s' = filter P (timersL s)" "nextTimerL s' = nextTimerL s"
    and "\<forall>t\<in>set (timersL s'). handleOf (callback t) s' = handleOf (callback t) s"
  shows "ownedL s'"
  using assms length_filter_filter [of isDelay P "timersL s"]
  by (auto simp add: ownedL_def list_all_iff distinct_map_filter)

lemma ownedL_cancel:
  assumes "ownedL s"
    and "timersL s' = filter (\<lambda>t. Some (tid t) \<noteq> handleOf cb s) (timersL s)"
    and "nextTimerL s' = nextTimerL s"
    and "\<forall>cb'. cb' \<noteq> cb \<longrightarrow> handleOf cb' s' = handleOf cb' s"
  shows "ownedL s'" and "\<forall>t\<in>set (timersL s'). callback t \<noteq> cb"
proof -
  show none: "\<forall>t\<in>set (timersL s'). callback t \<noteq> cb"
    using assms by (auto simp add: ownedL_def list_all_iff)
  then have "\<forall>t\<in>set (timersL s'). handleOf (callback t) s' = handleOf (callback t) s"
    using assms(4) by auto
  with assms show "ownedL s'"
    by (rule_tac ownedL_filter [of s]) auto
qed

lemma ownedL_arm:
  assumes "ownedL s"
    and "\<forall>t\<in>set (timersL s). callback t \<noteq> cb"
    and "isDelay \<lparr>tid = nextTimerL s, callback = cb, delayMs = d, repeating = rep\<rparr>
         \<longrightarrow> filter isDelay (timersL s) = []"
    and "timersL s' = timersL s @ [\<lparr>tid = nextTimerL s, callback = cb, delayMs = d,
           repeating = rep\<rparr>]"
    and "nextTimerL s' = Suc (nextTimerL s)"
    and "handleOf cb s' = Some (nextTimerL s)"
    and "\<forall>cb'. cb' \<noteq> cb \<longrightarrow> handleOf cb' s' = handleOf cb' s"
  shows "ownedL s'"
  using assms
  by (auto simp add: ownedL_def list_all_iff less_Suc_eq)

lemma handleOf_simps [simp]:
  "handleOf LockDelayCb s = lockDelayTimeoutL s"
  "handleOf UnlockDelayCb s = unlockDelayTimeoutL s"
  "handleOf AutoLockCb s = autoLockTimeoutL s"
  "handleOf MonitorCb s = pollIntervalObj s"
  by (simp_all add: handleOf_def)

lemma handleOf_other:
  "(\<forall>cb'. cb' \<noteq> cb \<longrightarrow> handleOf cb' s' = handleOf cb' s)
   = ((cb \<noteq> LockDelayCb \<longrightarrow> lockDelayTimeoutL s' = lockDelayTimeoutL s)
      \<and> (cb \<noteq> UnlockDelayCb \<longrightarrow> unlockDelayTimeoutL s' = unlockDelayTimeoutL s)
      \<and> (cb \<noteq> AutoLockCb \<longrightarrow> autoLockTimeoutL s' = autoLockTimeoutL s)
      \<and> (cb \<noteq> MonitorCb \<longrightarrow> pollIntervalObj s' = pollIntervalObj s))"
proof -
  have "(\<forall>cb'. P cb') = (P LockDelayCb \<and> P UnlockDelayCb \<and> P AutoLockCb \<and> P MonitorCb)" for P
    by (metis callback.exhaust)
  then show ?thesis by (auto simp add: handleOf_def)
qed

lemma doLock_fields [simp]:
  "timersL (doLock s) = timersL s" "nextTimerL (doLock s) = nextTimerL s"
  "pollIntervalObj (doLock s) = pollIntervalObj s"
  "autoLockTimeoutL (doLock s) = autoLockTimeoutL s"
  "lockDelayTimeoutL (doLock s) = lockDelayTimeoutL s"
  "unlockDelayTimeoutL (doLock s) = unlockDelayTimeoutL s"
  by (simp_all add: doLock_def Let_def)

lemma ownedL_doLock: "ownedL s \<Longrightarrow> ownedL (doLock s)"
  using ownedL_cong [of "doLock s" s] by simp

lemma ownedL_clearLockUnlockDelays:
  assumes "ownedL s"
  shows "ownedL (clearLockUnlockDelays s)"
    and "filter isDelay (timersL (clearLockUnlockDelays s)) = []"
proof -
  let ?s1 = "(cancelL (lockDelayTimeoutL s) s)\<lparr>lockDelayTimeoutL := None\<rparr>"
  let ?s2 = "(cancelL (unlockDelayTimeoutL ?s1) ?s1)\<lparr>unlockDelayTimeoutL := None\<rparr>"
  have o1: "ownedL ?s1" and n1: "\<forall>t\<in>set (timersL ?s1). callback t \<noteq> LockDelayCb"
    using ownedL_cancel [OF assms, of ?s1 LockDelayCb] by (simp_all add: handleOf_other)
  have o2: "ownedL ?s2" and n2: "\<forall>t\<in>set (timersL ?s2). callback t \<noteq> UnlockDelayCb"
    using ownedL_cancel [OF o1, of ?s2 UnlockDelayCb] by (simp_all add: handleOf_other)
  have eq: "clearLockUnlockDelays s = ?s2"
    by (simp add: clearLockUnlockDelays_def Let_def)
  show "ownedL (clearLockUnlockDelays s)"
    using o2 by (simp add: eq)
  have "\<forall>t\<in>set (timersL ?s2). callback t \<noteq> LockDelayCb"
    using n1 by simp
  with n2 show "filter isDelay (timersL (clearLockUnlockDelays s)) = []"
    unfolding eq by (auto simp add: filter_empty_conv isDelay_def)
qed

lemma ownedL_doUnlock:
  assumes "ownedL s"
  shows "ownedL (doUnlock s)"
proof -
  define s3 where "s3 = updateHomeKitStates
      ((if modeL (settings s) = ''cmd'' \<and> cmdUnlockCommand (settings s) \<noteq> []
        then actL (Exec (cmdUnlockCommand (settings s)))
               (if modeL (settings s) = ''mqtt'' \<and> mqttClientL s
                   \<and> mqttMessageSendOpen (settings s) \<noteq> []
                then actL (MqttPublish (mqttTopic (settings s))
                       (mqttMessageSendOpen (settings s))) s
                else s)
        else (if modeL (settings s) = ''mqtt'' \<and> mqttClientL s
                   \<and> mqttMessageSendOpen (settings s) \<noteq> []
                then actL (MqttPublish (mqttTopic (settings s))
                       (mqttMessageSendOpen (settings s))) s
                else s))\<lparr>currentState := UNSECURED, targetStateL := UNSECURED\<rparr>)"
  have "ownedL s3 = ownedL s"
    by (rule ownedL_cong) (simp_all add: s3_def)
  then have o3: "ownedL s3"
    using assms by simp
  define s4 where "s4 = cancelL (autoLockTimeoutL s3) s3"
  have o4: "ownedL s4" and n4: "\<forall>t\<in>set (timersL s4). callback t \<noteq> AutoLockCb"
    using ownedL_cancel [OF o3, of s4 AutoLockCb] by (simp_all add: handleOf_other s4_def)
  define s5 where "s5 = (snd (setTimerL AutoLockCb (autoLockDelayL (settings s3) * 1000) False s4))
      \<lparr>autoLockTimeoutL := Some (nextTimerL s4)\<rparr>"
  have o5: "ownedL s5"
    by (rule ownedL_arm [OF o4 n4, of "autoLockDelayL (settings s3) * 1000" False])
       (simp_all add: s5_def setTimerL_def isDelay_def handleOf_other)
  have "doUnlock s = (if autoLockL (settings s3) then s5 else s3)"
    by (simp add: doUnlock_def Let_def s3_def s4_def s5_def setTimerL_def)
  then show ?thesis using o3 o5 by simp
qed

lemma ownedL_targetState [simp]: "ownedL (s\<lparr>targetStateL := v\<rparr>) = ownedL s"
  by (rule ownedL_cong) simp_all

lemma ownedL_arm_delay:
  assumes "ownedL s" and "cb = LockDelayCb \<or> cb = UnlockDelayCb"
    and s': "s' = (if cb = LockDelayCb
                   then (snd (setTimerL cb d False (clearLockUnlockDelays s)))
                          \<lparr>lockDelayTimeoutL := Some (nextTimerL s)\<rparr>
                   else (snd (setTimerL cb d False (clearLockUnlockDelays s)))
                          \<lparr>unlockDelayTimeoutL := Some (nextTimerL s)\<rparr>)"
  shows "ownedL s'"
proof -
  let ?c = "clearLockUnlockDelays s"
  have n: "nextTimerL ?c = nextTimerL s"
    by (simp add: clearLockUnlockDelays_def Let_def)
  have none: "filter isDelay (timersL ?c) = []"
    by (rule ownedL_clearLockUnlockDelays(2) [OF assms(1)])
  then have "\<forall>t\<in>set (timersL ?c). callback t \<noteq> cb"
    using assms(2) by (auto simp add: filter_empty_conv isDelay_def)
  then show ?thesis
    using assms(2) none
    by (intro ownedL_arm [OF ownedL_clearLockUnlockDelays(1) [OF assms(1)], of cb d False])
       (auto simp add: s' setTimerL_def n handleOf_other)
qed

lemma clearLockUnlockDelays_fields [simp]:
  "nextTimerL (clearLockUnlockDelays s) = nextTimerL s"
  "settings (clearLockUnlockDelays s) = settings s"
  by (simp_all add: clearLockUnlockDelays_def Let_def)

lemma ownedL_handleTargetStateSet: "ownedL s \<Longrightarrow> ownedL (handleTargetStateSet v s)"
proof -
  assume o: "ownedL s"
  let ?s0 = "s\<lparr>targetStateL := v\<rparr>"
  have o0: "ownedL ?s0" using o by simp
  show ?thesis
    using ownedL_doLock [OF o0] ownedL_doUnlock [OF o0] o0
      ownedL_arm_delay [OF o0, of LockDelayCb _ "lockDelayL (settings s) * 1000"]
      ownedL_arm_delay [OF o0, of UnlockDelayCb _ "unlockDelayL (settings s) * 1000"]
    by (auto simp add: handleTargetStateSet_def Let_def setTimerL_def)
qed

lemma ownedL_onMessageL: "ownedL s \<Longrightarrow> ownedL (onMessageL m s)"
  using ownedL_cong [of "onMessageL m s" s] by (simp add: onMessageL_def)

lemma ownedL_pollL: "ownedL s \<Longrightarrow> ownedL (pollL r s)"
  using ownedL_cong [of "pollL r s" s] by (simp add: pollL_def Let_def split: exec_result.split)

lemma ownedL_runCallbackL: "ownedL s \<Longrightarrow> ownedL (runCallbackL cb r s)"
  using ownedL_doLock [of "s\<lparr>targetStateL := SECURED\<rparr>"]
  by (simp add: runCallbackL_def ownedL_doLock ownedL_doUnlock ownedL_pollL split: callback.split)

lemma ownedL_timerFiresL: "ownedL s \<Longrightarrow> ownedL (timerFiresL i r s)"
proof -
  assume o: "ownedL s"
  have "ownedL (s\<lparr>timersL := filter (\<lambda>t. tid t \<noteq> i) (timersL s)\<rparr>)"
    by (rule ownedL_filter [OF o, of _ "\<lambda>t. tid t \<noteq> i"])
       (simp_all add: handleOf_def split: callback.split)
  then show ?thesis
    using o by (simp add: timerFiresL_def ownedL_runCallbackL split: option.split)
qed

lemma ownedL_configure: "ownedL s \<Longrightarrow> ownedL (configure c e s)"
proof -
  assume o: "ownedL s"
  let ?s1 = "actL (SetName (lockName (resolve c))) (s\<lparr>settings := resolve c\<rparr>)"
  let ?s2 = "fst (cleanup e ?s1)"
  have "ownedL ?s1 = ownedL s" by (rule ownedL_cong) simp_all
  then have t2: "timersL ?s2 = []" using o by (simp add: cleanup_no_timers)
  then have o2: "ownedL ?s2" by (rule ownedL_empty)
  have m: "ownedL (setupMqtt ?s2)"
    by (rule ownedL_empty) (simp add: setupMqtt_def t2)
  have p: "ownedL (setupCommandPolling ?s2)"
  proof (cases "cmdPollCommand (settings ?s2) = [] \<or> cmdPollInterval (settings ?s2) = 0")
    case True
    then show ?thesis by (simp add: setupCommandPolling_def ownedL_empty t2)
  next
    case False
    then show ?thesis
      by (simp add: setupCommandPolling_def setTimerL_def t2 ownedL_def isDelay_def handleOf_def)
  qed
  show ?thesis
    using o2 m p by (simp add: configure_def Let_def)
qed

lemma ownedL_stepL: "ownedL s \<Longrightarrow> ownedL (stepL s e)"
  by (cases e)
     (simp_all add: ownedL_handleTargetStateSet ownedL_timerFiresL ownedL_onMessageL
        ownedL_cleanup ownedL_configure)

lemma ownedL_runL: "ownedL s \<Longrightarrow> ownedL (runL s es)"
  unfolding runL_def by (induction es arbitrary: s) (simp_all add: ownedL_stepL)

lemma ownedL_constructL: "ownedL (constructL c t0)"
proof -
  let ?s0 = "\<lparr>settings = resolve c, currentState = SECURED, targetStateL = SECURED,
                pollIntervalObj = None, autoLockTimeoutL = None, lockDelayTimeoutL = None,
                unlockDelayTimeoutL = None, mqttClientL = False, timersL = [],
                nextTimerL = t0, actionsL = []\<rparr>"
  have "ownedL ?s0" by (simp add: ownedL_def)
  then have "ownedL (configure c False (fst (cleanup False ?s0)))"
    by (intro ownedL_configure ownedL_cleanup)
  moreover have "ownedL (updateHomeKitStates x) = ownedL x" for x
    by (rule ownedL_cong) simp_all
  ultimately show ?thesis
    by (simp add: constructL_def Let_def)
qed

lemma legacy_one_delay_timer:
  "length (filter isDelay (timersL (runL (constructL c t0) es))) \<le> 1"
  using ownedL_runL [OF ownedL_constructL, of c t0 es] by (simp add: ownedL_def)

lemma legacy_cleanup_safe:
  "snd (cleanup e (runL (constructL c t0) es)) = False
   \<and> timersL (fst (cleanup e (runL (constructL c t0) es))) = []
   \<and> mqttClientL (fst (cleanup e (runL (constructL c t0) es))) = False
   \<and> fst (cleanup e' (fst (cleanup e (runL (constructL c t0) es))))
       = fst (cleanup e (runL (constructL c t0) es))
   \<and> timerFiresL i r (fst (cleanup e (runL (constructL c t0) es)))
       = fst (cleanup e (runL (constructL c t0) es))"
  using cleanup_no_timers [OF ownedL_runL [OF ownedL_constructL], of e c t0 es]
  by (simp add: cleanup_result cleanup_twice timerFiresL_def)

section \<open>Superseded and leaked delay timers\<close>

text \<open>
  C3. The garage lock with delays of five seconds starts unsecured. A request to secure
  it and then a request to unsecure it leave both delay timers pending, and when both
  have expired the lock command and the unlock command have both been executed. The
  earlier accessory never has two delay timers pending (\<open>legacy_one_delay_timer\<close>).
\<close>

theorem superseded_delay_timer_still_fires:
  "\<not> isLocked slowGarageUnsecured
   \<and> map callback (timers (run slowGarageUnsecured
        [SetTargetState SECURED (ExecOk [] []), SetTargetState UNSECURED (ExecOk [] [])]))
       = [MonitorCb, LockDelayCb, UnlockDelayCb]
   \<and> actions (run slowGarageUnsecured
        [SetTargetState SECURED (ExecOk [] []), SetTargetState UNSECURED (ExecOk [] []),
         TimerFires 1 (ExecOk [] []), TimerFires 2 (ExecOk [] [])])
       = actions slowGarageUnsecured
         @ [Exec ''garage-lock'',
            UpdateCharacteristic LockTargetState SECURED,
            UpdateCharacteristic LockCurrentState SECURED,
            Exec ''garage-unlock'',
            UpdateCharacteristic LockTargetState UNSECURED,
            UpdateCharacteristic LockCurrentState UNSECURED]"
  by code_simp

text \<open>
  C7. Two requests to secure the same lock arm two lock-delay timers, of which the handle
  keeps the second. \<open>shutdown\<close> resolves and clears the timers the handles refer to; the
  first timer stays pending, also after a second \<open>shutdown\<close>, and executes the lock
  command when it expires. And when \<^verbatim>\<open>mqttClient.end\<close> throws, \<open>shutdown\<close> is rejected.
  The earlier accessory's \<open>cleanup\<close> does what the claim says (\<open>legacy_cleanup_safe\<close>).
\<close>

theorem delay_timer_survives_shutdown:
  "map callback (timers (run slowGarageUnsecured
        [SetTargetState SECURED (ExecOk [] []), SetTargetState SECURED (ExecOk [] []),
         Shutdown False]))
       = [LockDelayCb]
   \<and> mqttClient frontDoorLock \<and> snd (shutdown True frontDoorLock)
   \<and> snd (shutdown False (run slowGarageUnsecured
        [SetTargetState SECURED (ExecOk [] []), SetTargetState SECURED (ExecOk [] [])])) = False
   \<and> actions (run slowGarageUnsecured
        [SetTargetState SECURED (ExecOk [] []), SetTargetState SECURED (ExecOk [] []),
         Shutdown False, Shutdown False, TimerFires 1 (ExecOk [] [])])
       = actions slowGarageUnsecured
         @ [Exec ''garage-lock'',
            UpdateCharacteristic LockTargetState SECURED,
            UpdateCharacteristic LockCurrentState SECURED]"
  by code_simp

section \<open>Discovery\<close>

text \<open>
  A lock that passes \<open>validateConfig\<close> can still end the loop: what follows validation is
  outside the \<^verbatim>\<open>try\<close>, and the host refuses an accessory without a name
  (\<open>nameless_lock_ends_discovery\<close>). A lock that fails validation cannot. When nothing
  throws, every valid lock gets its controller and every lock its log line
  (\<open>discovery_without_exceptions\<close>).
\<close>

lemma addController_keeps [simp]:
  "accessories (fst (addController h p c acc call)) = accessories p"
  "locks (fst (addController h p c acc call)) = locks p"
  "platformLog (fst (addController h p c acc call)) = platformLog p"
  by (simp_all add: addController_def Let_def)

lemma discoverLock_keeps [simp]:
  "accessories (fst (discoverLock h p c)) = accessories p"
  "locks (fst (discoverLock h p c)) = locks p"
  by (simp_all add: discoverLock_def Let_def split: sum.split option.split)





lemma discoverLock_result:
  "snd (discoverLock h p c) = None \<Longrightarrow>
   instances (fst (discoverLock h p c))
     = instances p @ (if valid c then [construct c (accessoryFor h p c) 0] else [])
   \<and> platformLog (fst (discoverLock h p c)) = platformLog p @ [discoveryLine h p c]"
  by (auto simp add: discoverLock_def addController_def valid_def accessoryFor_def
        discoveryLine_def platformAccessory_def Let_def
        split: sum.splits option.splits if_splits)

lemma discoverLock_returns:
  "\<forall>c. \<not> controllerThrows h c \<Longrightarrow> \<forall>cs a. \<not> registrationThrows h cs a \<Longrightarrow>
   name c \<noteq> [] \<Longrightarrow> snd (discoverLock h p c) = None"
  by (simp add: discoverLock_def addController_def platformAccessory_def Let_def
        split: sum.split option.split)

lemma accessoryFor_cong:
  "accessories p = accessories q \<Longrightarrow> accessoryFor h p = accessoryFor h q"
  by (rule ext) (simp add: accessoryFor_def)

lemma discoveryLine_cong:
  "accessories p = accessories q \<Longrightarrow> discoveryLine h p = discoveryLine h q"
  by (rule ext) (simp add: discoveryLine_def split: sum.split)

lemma discovery_without_exceptions:
  assumes "\<forall>c. \<not> controllerThrows h c" and "\<forall>cs a. \<not> registrationThrows h cs a"
  shows "\<forall>c\<in>set ls. name c \<noteq> [] \<Longrightarrow>
   snd (discoverLoop h p ls) = None
   \<and> instances (fst (discoverLoop h p ls))
       = instances p @ map (\<lambda>c. construct c (accessoryFor h p c) 0) (filter valid ls)
   \<and> platformLog (fst (discoverLoop h p ls)) = platformLog p @ map (discoveryLine h p) ls"
proof (induction ls arbitrary: p)
  case Nil
  show ?case by simp
next
  case (Cons c ls)
  have "snd (discoverLock h p c) = None"
    using discoverLock_returns [OF assms, of c p] Cons.prems by simp
  then obtain p' where p': "discoverLock h p c = (p', None)"
    by (cases "discoverLock h p c") auto
  have acc: "accessories p' = accessories p"
    using discoverLock_keeps(1) [of h p c] p' by simp
  have "\<forall>c\<in>set ls. name c \<noteq> []"
    using Cons.prems by simp
  from Cons.IH [OF this, of p'] show ?case
    using discoverLock_result [of h p c] p'
    by (simp add: accessoryFor_cong [OF acc] discoveryLine_cong [OF acc])
qed

lemma nameless_lock_ends_discovery:
  "valid namelessDummy
   \<and> snd (discoverLoop quietHost examplePlatform [namelessDummy, garage]) = Some EmptyDisplayName
   \<and> instances (fst (discoverLoop quietHost examplePlatform [namelessDummy, garage])) = []
   \<and> platformLog (fst (discoverLoop quietHost examplePlatform [namelessDummy, garage]))
       = [(Info, AddingNew [])]"
  by code_simp



end
